theory Spec2Isabelle
  imports Complex_Main
begin

section \<open>Sudoku-Solver: the constraint encoding and the two-round solve protocol\<close>

text \<open>
  The repository solves 9x9 Sudoku boards by handing a constraint system to Z3 (through a
  Python bridge). \<^verbatim>\<open>main.ts\<close> holds \<^verbatim>\<open>handleSolveRequest\<close> and \<^verbatim>\<open>solveSudoku\<close>;
  the process-isolated variant holds \<^verbatim>\<open>solveSudokuInProcess\<close>, which spawns
  \<^verbatim>\<open>solver.ts\<close> (its \<^verbatim>\<open>solveSudoku\<close> and \<^verbatim>\<open>main\<close>).

  Z3 itself is not code of the repository: the source only declares the interface it
  uses (\<^verbatim>\<open>Z3Solver.add/check/model\<close>, \<^verbatim>\<open>Z3Model.evaluate\<close>, the expression
  constructors). The expressions the code builds are a datatype with the usual
  semantics; the decision procedure and the model are a parameter (\<open>backend\<close>).
\<close>

subsection \<open>Constants\<close>

definition GRID_SIZE :: nat where
  "GRID_SIZE = 9"

definition BOARD_SIZE :: nat where
  "BOARD_SIZE = GRID_SIZE * GRID_SIZE"

definition BOX_SIZE :: nat where
  "BOX_SIZE = 3"

subsection \<open>Numbers as text\<close>

text \<open>
  A template literal prints a row or column number in decimal, and Z3 prints an integer
  numeral in decimal with a leading minus sign when negative.
\<close>

definition digit_char :: "nat \<Rightarrow> char" where
  "digit_char d = ''0123456789'' ! d"

fun show_nat :: "nat \<Rightarrow> string" where
  "show_nat n = (if n < 10 then [digit_char n] else show_nat (n div 10) @ [digit_char (n mod 10)])"

definition show_int :: "int \<Rightarrow> string" where
  "show_int i = (if i < 0 then CHR ''-'' # show_nat (nat (- i)) else show_nat (nat i))"

text \<open>
  \<^verbatim>\<open>Number.parseInt(s, 10)\<close>: leading white space is skipped, one sign is read, then the
  longest run of decimal digits; no digit gives NaN, which \<^verbatim>\<open>Number.isFinite\<close> rejects
  (\<open>None\<close> here). The rounding of very long digit runs to a double is not modelled.
\<close>

definition is_space :: "char \<Rightarrow> bool" where
  "is_space c = (c \<in> set [CHR '' '', CHR 0x09, CHR 0x0A, CHR 0x0B, CHR 0x0C, CHR 0x0D])"

definition is_digit :: "char \<Rightarrow> bool" where
  "is_digit c = (c \<in> set ''0123456789'')"

definition digit_val :: "char \<Rightarrow> nat" where
  "digit_val c = of_char c - 48"

definition digits_val :: "string \<Rightarrow> nat" where
  "digits_val ds = foldl (\<lambda>acc c. 10 * acc + digit_val c) 0 ds"

definition parseInt :: "string \<Rightarrow> int option" where
  "parseInt s =
     (let t = dropWhile is_space s;
          neg = (case t of c # _ \<Rightarrow> c = CHR ''-'' | [] \<Rightarrow> False);
          u = (case t of c # r \<Rightarrow> if c = CHR ''-'' \<or> c = CHR ''+'' then r else t | [] \<Rightarrow> t);
          ds = takeWhile is_digit u
      in if ds = [] then None
         else Some (if neg then - int (digits_val ds) else int (digits_val ds)))"

subsection \<open>Z3 expressions\<close>

text \<open>
  \<^verbatim>\<open>z3.Int(name)\<close> is the integer constant of that name (two calls with one name give
  the same constant), \<^verbatim>\<open>z3.IntVal(n)\<close> a numeral. The boolean expressions are the ones
  the interface \<^verbatim>\<open>Z3\<close> declares and the code uses.
\<close>

datatype z3_int = Z3Int string | Z3IntVal int

datatype z3_bool =
    Z3Ge z3_int z3_int
  | Z3Le z3_int z3_int
  | Z3Eq z3_int z3_int
  | Z3Distinct "z3_int list"
  | Z3Or "z3_bool list"
  | Z3Not z3_bool

type_synonym assignment = "string \<Rightarrow> int"

fun eval_int :: "assignment \<Rightarrow> z3_int \<Rightarrow> int" where
  "eval_int a (Z3Int x) = a x"
| "eval_int a (Z3IntVal n) = n"

fun holds :: "assignment \<Rightarrow> z3_bool \<Rightarrow> bool" where
  "holds a (Z3Ge x y) = (eval_int a x \<ge> eval_int a y)"
| "holds a (Z3Le x y) = (eval_int a x \<le> eval_int a y)"
| "holds a (Z3Eq x y) = (eval_int a x = eval_int a y)"
| "holds a (Z3Distinct xs) = distinct (map (eval_int a) xs)"
| "holds a (Z3Or bs) = list_ex (holds a) bs"
| "holds a (Z3Not b) = (\<not> holds a b)"

definition satisfies :: "assignment \<Rightarrow> z3_bool list \<Rightarrow> bool" where
  "satisfies a cs = list_all (holds a) cs"

subsection \<open>The solver object and the backend\<close>

datatype check_result = Sat | Unsat | Unknown

fun check_toString :: "check_result \<Rightarrow> string" where
  "check_toString Sat = ''sat''"
| "check_toString Unsat = ''unsat''"
| "check_toString Unknown = ''unknown''"

text \<open>
  The backend answers \<^verbatim>\<open>solver.check()\<close> for the assertions added so far, and gives
  the text of \<^verbatim>\<open>solver.model().evaluate(e)\<close> for them.
\<close>

record backend =
  decide :: "z3_bool list \<Rightarrow> check_result"
  evaluate :: "z3_bool list \<Rightarrow> z3_int \<Rightarrow> string"

datatype solver_call = CallCheck | CallModel

record z3_solver =
  assertions :: "z3_bool list"
  calls :: "solver_call list"

definition Solver :: z3_solver where
  "Solver = \<lparr>assertions = [], calls = []\<rparr>"

definition add :: "z3_solver \<Rightarrow> z3_bool \<Rightarrow> z3_solver" where
  "add s c = s\<lparr>assertions := assertions s @ [c]\<rparr>"

definition check :: "backend \<Rightarrow> z3_solver \<Rightarrow> check_result \<times> z3_solver" where
  "check B s = (decide B (assertions s), s\<lparr>calls := calls s @ [CallCheck]\<rparr>)"

definition model :: "backend \<Rightarrow> z3_solver \<Rightarrow> (z3_int \<Rightarrow> string) \<times> z3_solver" where
  "model B s = (evaluate B (assertions s), s\<lparr>calls := calls s @ [CallModel]\<rparr>)"

text \<open>
  The capability contract of the backend: an answer \<open>Sat\<close> comes with a model that
  satisfies every assertion and prints the value of each variable; an answer
  \<open>Unsat\<close> means no assignment satisfies the assertions. \<open>Unknown\<close> promises nothing.
\<close>

definition backend_sound :: "backend \<Rightarrow> bool" where
  "backend_sound B =
     (\<forall>cs. (decide B cs = Sat \<longrightarrow>
              (\<exists>a. satisfies a cs \<and> (\<forall>x. evaluate B cs (Z3Int x) = show_int (a x))))
         \<and> (decide B cs = Unsat \<longrightarrow> (\<forall>a. \<not> satisfies a cs)))"

subsection \<open>Errors and loops\<close>

text \<open>
  The exceptions the code throws or meets. \<open>PythonError\<close> is the exception the bridge
  raises when Z3 rejects an argument.
\<close>

datatype js_error =
    Error string
  | SudokuUnsolvableError string
  | AbortError string
  | TypeError string
  | PythonError string

fun error_message :: "js_error \<Rightarrow> string" where
  "error_message (Error m) = m"
| "error_message (SudokuUnsolvableError m) = m"
| "error_message (AbortError m) = m"
| "error_message (TypeError m) = m"
| "error_message (PythonError m) = m"

text \<open>A \<^verbatim>\<open>for\<close> loop whose body may throw: the first exception ends the loop.\<close>

fun for_each :: "'i list \<Rightarrow> ('i \<Rightarrow> 's \<Rightarrow> js_error + 's) \<Rightarrow> 's \<Rightarrow> js_error + 's" where
  "for_each [] body s = Inr s"
| "for_each (i # is) body s =
     (case body i s of Inl e \<Rightarrow> Inl e | Inr s' \<Rightarrow> for_each is body s')"

text \<open>\<^verbatim>\<open>board[k]\<close>: reading past the end of an array gives \<^verbatim>\<open>undefined\<close> (\<open>None\<close>).\<close>

definition js_index :: "'a list \<Rightarrow> nat \<Rightarrow> 'a option" where
  "js_index xs k = (if k < length xs then Some (xs ! k) else None)"

subsection \<open>The encoder (\<^verbatim>\<open>solveSudoku\<close>, construction of the constraints)\<close>

definition cell_name :: "nat \<Rightarrow> nat \<Rightarrow> string" where
  "cell_name row col = ''x_'' @ show_nat row @ ''_'' @ show_nat col"

text \<open>
  The body of the first double loop: declare the cell, bound it to 1..9 and, for a
  non-zero entry of the board, fix it. An entry that is \<^verbatim>\<open>undefined\<close> is not \<^verbatim>\<open>0\<close>, and
  \<^verbatim>\<open>z3.IntVal(undefined)\<close> is rejected by Z3.
\<close>

definition declare_cell ::
  "int list \<Rightarrow> nat \<Rightarrow> nat \<Rightarrow> z3_int list \<times> z3_solver \<Rightarrow> js_error + z3_int list \<times> z3_solver" where
  "declare_cell board row col st =
     (case st of (cells, solver) \<Rightarrow>
        let cell = Z3Int (cell_name row col);
            cells = cells @ [cell];
            solver = add solver (Z3Ge cell (Z3IntVal 1));
            solver = add solver (Z3Le cell (Z3IntVal 9))
        in case js_index board (row * GRID_SIZE + col) of
             None \<Rightarrow> Inl (PythonError ''Z3Exception'')
           | Some given \<Rightarrow>
               if given \<noteq> 0 then Inr (cells, add solver (Z3Eq cell (Z3IntVal given)))
               else Inr (cells, solver))"

definition declare_cells :: "int list \<Rightarrow> js_error + z3_int list \<times> z3_solver" where
  "declare_cells board =
     for_each [0..<GRID_SIZE] (\<lambda>row. for_each [0..<GRID_SIZE] (\<lambda>col. declare_cell board row col))
       ([], Solver)"

definition row_cells :: "z3_int list \<Rightarrow> nat \<Rightarrow> z3_int list" where
  "row_cells cells row =
     fold (\<lambda>col rowCells. rowCells @ [cells ! (row * GRID_SIZE + col)]) [0..<GRID_SIZE] []"

definition add_row_constraints :: "z3_int list \<Rightarrow> z3_solver \<Rightarrow> z3_solver" where
  "add_row_constraints cells solver =
     fold (\<lambda>row solver. add solver (Z3Distinct (row_cells cells row))) [0..<GRID_SIZE] solver"

definition col_cells :: "z3_int list \<Rightarrow> nat \<Rightarrow> z3_int list" where
  "col_cells cells col =
     fold (\<lambda>row colCells. colCells @ [cells ! (row * GRID_SIZE + col)]) [0..<GRID_SIZE] []"

definition add_column_constraints :: "z3_int list \<Rightarrow> z3_solver \<Rightarrow> z3_solver" where
  "add_column_constraints cells solver =
     fold (\<lambda>col solver. add solver (Z3Distinct (col_cells cells col))) [0..<GRID_SIZE] solver"

definition box_cells :: "z3_int list \<Rightarrow> nat \<Rightarrow> nat \<Rightarrow> z3_int list" where
  "box_cells cells boxRow boxCol =
     fold (\<lambda>row boxCells.
        fold (\<lambda>col boxCells.
           let r = boxRow * BOX_SIZE + row;
               c = boxCol * BOX_SIZE + col
           in boxCells @ [cells ! (r * GRID_SIZE + c)]) [0..<BOX_SIZE] boxCells)
       [0..<BOX_SIZE] []"

definition add_subgrid_constraints :: "z3_int list \<Rightarrow> z3_solver \<Rightarrow> z3_solver" where
  "add_subgrid_constraints cells solver =
     fold (\<lambda>boxRow solver.
        fold (\<lambda>boxCol solver. add solver (Z3Distinct (box_cells cells boxRow boxCol)))
          [0..<BOX_SIZE] solver)
       [0..<BOX_SIZE] solver"

text \<open>The state of \<^verbatim>\<open>solveSudoku\<close> when it reaches the first \<^verbatim>\<open>solver.check()\<close>.\<close>

definition encode :: "int list \<Rightarrow> js_error + z3_int list \<times> z3_solver" where
  "encode board =
     (case declare_cells board of
        Inl e \<Rightarrow> Inl e
      | Inr (cells, solver) \<Rightarrow>
          Inr (cells,
               add_subgrid_constraints cells
                 (add_column_constraints cells (add_row_constraints cells solver))))"

subsection \<open>Extraction, the blocking constraint and the second round\<close>

definition extract_cell :: "(z3_int \<Rightarrow> string) \<Rightarrow> z3_int \<Rightarrow> int list \<Rightarrow> js_error + int list" where
  "extract_cell m cell solution =
     (let raw = m cell in
      case parseInt raw of
        None \<Rightarrow> Inl (Error (''Failed to parse solver value: '' @ raw))
      | Some v \<Rightarrow> Inr (solution @ [v]))"

definition block_constraints :: "z3_int list \<Rightarrow> int list \<Rightarrow> z3_bool list" where
  "block_constraints cells solution =
     fold (\<lambda>i blockConstraints.
        blockConstraints @ [Z3Not (Z3Eq (cells ! i) (Z3IntVal (solution ! i)))])
       [0..<length cells] []"

record solve_result =
  solution :: "int list"
  solutionCount :: nat

text \<open>
  \<^verbatim>\<open>solveSudoku\<close> of \<^verbatim>\<open>main.ts\<close> and of \<^verbatim>\<open>solver.ts\<close> are the same text but for the
  exception thrown when the first answer is not \<^verbatim>\<open>"sat"\<close>, which is the first argument
  here. The result comes with the calls made on the solver.
\<close>

definition solveSudoku_body ::
  "js_error \<Rightarrow> backend \<Rightarrow> int list \<Rightarrow> (js_error + solve_result) \<times> solver_call list" where
  "solveSudoku_body noSolution B board =
     (case encode board of
        Inl e \<Rightarrow> (Inl e, [])
      | Inr (cells, solver) \<Rightarrow>
          (case check B solver of (result, solver) \<Rightarrow>
             if check_toString result \<noteq> ''sat'' then (Inl noSolution, calls solver)
             else
               (case model B solver of (m, solver) \<Rightarrow>
                  (case for_each cells (extract_cell m) [] of
                     Inl e \<Rightarrow> (Inl e, calls solver)
                   | Inr sol \<Rightarrow>
                       (let solver = add solver (Z3Or (block_constraints cells sol)) in
                        case check B solver of (nextResult, solver) \<Rightarrow>
                          let hasMultipleSolutions = (check_toString nextResult = ''sat'');
                              count = (if hasMultipleSolutions then 2 else 1)
                          in (Inr \<lparr>solution = sol, solutionCount = count\<rparr>,
                              calls solver))))))"

definition solveSudoku :: "backend \<Rightarrow> int list \<Rightarrow> (js_error + solve_result) \<times> solver_call list" where
  "solveSudoku = solveSudoku_body (SudokuUnsolvableError ''Sudoku has no solution.'')"

definition solver_solveSudoku ::
  "backend \<Rightarrow> int list \<Rightarrow> (js_error + solve_result) \<times> solver_call list" where
  "solver_solveSudoku = solveSudoku_body (Error ''Sudoku has no solution.'')"

subsection \<open>The HTTP handler (\<^verbatim>\<open>handleSolveRequest\<close>)\<close>

text \<open>
  The parsed request body is a JSON value. A number is a double: the finite ones are
  reals, and \<open>JInfinity\<close> stands for a literal too large for a double. A parsed object
  has each key once.
\<close>

datatype js_value =
    JUndefined
  | JNull
  | JBool bool
  | JNumber real
  | JInfinity
  | JString string
  | JArray "js_value list"
  | JObject "(string \<times> js_value) list"

datatype solve_response = SolutionBody "int list" nat | ErrorBody string

record response =
  status :: nat
  data :: solve_response

definition jsonResponse :: "solve_response \<Rightarrow> nat \<Rightarrow> response" where
  "jsonResponse d st = \<lparr>status = st, data = d\<rparr>"

definition jsonError :: "string \<Rightarrow> nat \<Rightarrow> response" where
  "jsonError message st = jsonResponse (ErrorBody message) st"

text \<open>
  \<^verbatim>\<open>payload.board\<close>: reading a property of \<^verbatim>\<open>null\<close> throws a TypeError (outside
  every \<^verbatim>\<open>try\<close> of the handler); a value that is not an object has no such property.
\<close>

fun get_board :: "js_value \<Rightarrow> js_error + js_value" where
  "get_board JNull = Inl (TypeError ''Cannot read properties of null'')"
| "get_board JUndefined = Inl (TypeError ''Cannot read properties of undefined'')"
| "get_board (JObject props) =
     Inr (case map_of props ''board'' of Some v \<Rightarrow> v | None \<Rightarrow> JUndefined)"
| "get_board v = Inr JUndefined"

text \<open>
  The test of the loop over \<^verbatim>\<open>payload.board\<close>, negated: the value is a number, an
  integer, and within 0..9.
\<close>

fun is_board_entry :: "js_value \<Rightarrow> bool" where
  "is_board_entry (JNumber x) = (x = of_int \<lfloor>x\<rfloor> \<and> \<not> x < 0 \<and> \<not> x > 9)"
| "is_board_entry v = False"

fun entry_value :: "js_value \<Rightarrow> int" where
  "entry_value (JNumber x) = \<lfloor>x\<rfloor>"
| "entry_value v = 0"

fun read_board :: "js_value list \<Rightarrow> int list \<Rightarrow> response + int list" where
  "read_board [] board = Inr board"
| "read_board (v # vs) board =
     (if \<not> is_board_entry v
      then Inl (jsonError ''Board entries must be integers in the range 0-9.'' 400)
      else read_board vs (board @ [entry_value v]))"

text \<open>
  The part of the handler before the solver is called, the same in both variants of
  \<^verbatim>\<open>main.ts\<close>. \<open>None\<close> is a body that is not JSON. The result is an exception, an
  early response, or the board.
\<close>

definition read_request :: "js_value option \<Rightarrow> js_error + response + int list" where
  "read_request req =
     (case req of
        None \<Rightarrow> Inr (Inl (jsonError ''Invalid JSON payload.'' 400))
      | Some payload \<Rightarrow>
          (case get_board payload of
             Inl e \<Rightarrow> Inl e
           | Inr b \<Rightarrow>
               (case b of
                  JArray vs \<Rightarrow>
                    if length vs \<noteq> BOARD_SIZE
                    then Inr (Inl (jsonError (''Expected board length '' @ show_nat BOARD_SIZE @ ''.'') 400))
                    else Inr (read_board vs [])
                | _ \<Rightarrow>
                    Inr (Inl (jsonError
                      (''Expected '' @ [CHR 0x60] @ ''board'' @ [CHR 0x60] @ '' to be an array of numbers.'')
                      400)))))"

definition handleSolveRequest ::
  "backend \<Rightarrow> js_value option \<Rightarrow> (js_error + response) \<times> solver_call list" where
  "handleSolveRequest B req =
     (case read_request req of
        Inl e \<Rightarrow> (Inl e, [])
      | Inr (Inl early) \<Rightarrow> (Inr early, [])
      | Inr (Inr board) \<Rightarrow>
          (case solveSudoku B board of
             (Inr result, cl) \<Rightarrow>
               (Inr (jsonResponse (SolutionBody (solution result) (solutionCount result)) 200), cl)
           | (Inl (SudokuUnsolvableError m), cl) \<Rightarrow>
               (Inr (jsonError ''The provided Sudoku board is unsatisfiable.'' 422), cl)
           | (Inl error, cl) \<Rightarrow> (Inr (jsonError ''Internal solver error.'' 500), cl)))"

subsection \<open>The process-isolated variant (\<^verbatim>\<open>solver.ts\<close> and \<^verbatim>\<open>solveSudokuInProcess\<close>)\<close>

datatype solver_output = Success "int list" nat | Failure string

text \<open>
  \<^verbatim>\<open>main\<close> of \<^verbatim>\<open>solver.ts\<close>: whatever \<^verbatim>\<open>readInput\<close> or \<^verbatim>\<open>solveSudoku\<close> throws is
  caught and written as a failure. The input is the board read from standard input, or
  the exception of \<^verbatim>\<open>readInput\<close>.
\<close>

definition solver_main :: "backend \<Rightarrow> js_error + int list \<Rightarrow> solver_output" where
  "solver_main B input =
     (case input of
        Inl error \<Rightarrow> Failure (error_message error)
      | Inr board \<Rightarrow>
          (case fst (solver_solveSudoku B board) of
             Inr result \<Rightarrow> Success (solution result) (solutionCount result)
           | Inl error \<Rightarrow> Failure (error_message error)))"

text \<open>
  What the parent sees of a spawned process: the exit code, and the standard output as
  \<^verbatim>\<open>JSON.parse\<close> reads it (or its exception). \<open>solver_process\<close> is a run of
  \<^verbatim>\<open>solver.ts\<close> that ends normally on the board the parent wrote.
\<close>

record process_result =
  code :: int
  stdout :: "js_error + solver_output"

definition solver_process :: "backend \<Rightarrow> int list \<Rightarrow> process_result" where
  "solver_process B board = \<lparr>code = 0, stdout = Inr (solver_main B (Inr board))\<rparr>"

text \<open>
  \<^verbatim>\<open>solveSudokuInProcess\<close>: \<open>spawn\<close> is the run of the child on the board; the two
  booleans are \<^verbatim>\<open>signal.aborted\<close> right after the spawn (the child is then killed before
  it is given the board) and after its output is read.
\<close>

definition solveSudokuInProcess ::
  "(int list \<Rightarrow> process_result) \<Rightarrow> bool \<Rightarrow> bool \<Rightarrow> int list \<Rightarrow> js_error + solve_result" where
  "solveSudokuInProcess spawn abortedBefore abortedAfter board =
     (if abortedBefore then Inl (AbortError ''Request was aborted'')
      else
        let p = spawn board in
        if abortedAfter then Inl (AbortError ''Request was aborted'')
        else if code p \<noteq> 0
        then Inl (Error (''Solver process exited with code '' @ show_int (code p)))
        else
          (case stdout p of
             Inl e \<Rightarrow> Inl e
           | Inr (Failure err) \<Rightarrow> Inl (SudokuUnsolvableError err)
           | Inr (Success sol n) \<Rightarrow> Inr \<lparr>solution = sol, solutionCount = n\<rparr>))"

definition handleSolveRequest_isolated ::
  "(int list \<Rightarrow> process_result) \<Rightarrow> bool \<Rightarrow> bool \<Rightarrow> js_value option \<Rightarrow> js_error + response" where
  "handleSolveRequest_isolated spawn abortedBefore abortedAfter req =
     (case read_request req of
        Inl e \<Rightarrow> Inl e
      | Inr (Inl early) \<Rightarrow> Inr early
      | Inr (Inr board) \<Rightarrow>
          (case solveSudokuInProcess spawn abortedBefore abortedAfter board of
             Inr result \<Rightarrow>
               Inr (jsonResponse (SolutionBody (solution result) (solutionCount result)) 200)
           | Inl (AbortError m) \<Rightarrow> Inr (jsonError ''Request was cancelled.'' 499)
           | Inl (SudokuUnsolvableError m) \<Rightarrow>
               Inr (jsonError ''The provided Sudoku board is unsatisfiable.'' 422)
           | Inl error \<Rightarrow> Inr (jsonError ''Internal solver error.'' 500)))"

subsection \<open>The constraint system in closed form\<close>

text \<open>
  What the loops of the encoder add up to: the 81 cell variables in row-major order, and
  the assertions in the order they are added. \<open>encode_ok\<close> below proves that this is the
  state \<open>encode\<close> reaches.
\<close>

definition cell_names :: "string list" where
  "cell_names = concat (map (\<lambda>row. map (\<lambda>col. cell_name row col) [0..<GRID_SIZE]) [0..<GRID_SIZE])"

definition cell_vars :: "z3_int list" where
  "cell_vars = map Z3Int cell_names"

definition cell_constraints :: "int list \<Rightarrow> nat \<Rightarrow> nat \<Rightarrow> z3_bool list" where
  "cell_constraints board row col =
     [Z3Ge (Z3Int (cell_name row col)) (Z3IntVal 1), Z3Le (Z3Int (cell_name row col)) (Z3IntVal 9)] @
     (if board ! (row * GRID_SIZE + col) \<noteq> 0
      then [Z3Eq (Z3Int (cell_name row col)) (Z3IntVal (board ! (row * GRID_SIZE + col)))] else [])"

definition cell_assertions :: "int list \<Rightarrow> z3_bool list" where
  "cell_assertions board =
     concat (map (\<lambda>row. concat (map (cell_constraints board row) [0..<GRID_SIZE])) [0..<GRID_SIZE])"

definition row_assertions :: "z3_bool list" where
  "row_assertions = map (\<lambda>row. Z3Distinct (map (\<lambda>col. Z3Int (cell_name row col)) [0..<GRID_SIZE])) [0..<GRID_SIZE]"

definition column_assertions :: "z3_bool list" where
  "column_assertions = map (\<lambda>col. Z3Distinct (map (\<lambda>row. Z3Int (cell_name row col)) [0..<GRID_SIZE])) [0..<GRID_SIZE]"

definition subgrid_assertions :: "z3_bool list" where
  "subgrid_assertions =
     concat (map (\<lambda>boxRow. map (\<lambda>boxCol.
        Z3Distinct (concat (map (\<lambda>row. map (\<lambda>col.
           Z3Int (cell_name (boxRow * BOX_SIZE + row) (boxCol * BOX_SIZE + col))) [0..<BOX_SIZE]) [0..<BOX_SIZE])))
        [0..<BOX_SIZE]) [0..<BOX_SIZE])"

definition constraint_system :: "int list \<Rightarrow> z3_bool list" where
  "constraint_system board =
     cell_assertions board @ row_assertions @ column_assertions @ subgrid_assertions"

definition blocked_system :: "int list \<Rightarrow> int list \<Rightarrow> z3_bool list" where
  "blocked_system board sol = constraint_system board @ [Z3Or (block_constraints cell_vars sol)]"

text \<open>
  The extraction loop of \<^verbatim>\<open>solveSudoku\<close> run on the model of the first round: the
  solution it builds, or the exception of a value that does not parse.
\<close>

definition model_solution :: "backend \<Rightarrow> int list \<Rightarrow> js_error + int list" where
  "model_solution B board =
     for_each cell_vars (extract_cell (evaluate B (constraint_system board))) []"

text \<open>The grid an assignment gives to the 81 cells, in row-major order.\<close>

definition grid_of :: "assignment \<Rightarrow> int list" where
  "grid_of a = map a cell_names"

subsection \<open>Sudoku grids\<close>

text \<open>
  The rules as the specification states them, on a grid of 81 integers in row-major
  order (index = row * 9 + col). The box of a cell is (row div 3, col div 3). A grid is
  valid when each of the 27 groups holds each of 1..9 exactly once; it solves a board when
  it also keeps every non-zero entry of the board.
\<close>

definition row_group :: "nat \<Rightarrow> nat list" where
  "row_group row = map (\<lambda>col. row * GRID_SIZE + col) [0..<GRID_SIZE]"

definition col_group :: "nat \<Rightarrow> nat list" where
  "col_group col = map (\<lambda>row. row * GRID_SIZE + col) [0..<GRID_SIZE]"

definition box_group :: "nat \<Rightarrow> nat \<Rightarrow> nat list" where
  "box_group boxRow boxCol =
     filter (\<lambda>k. (k div GRID_SIZE) div BOX_SIZE = boxRow \<and> (k mod GRID_SIZE) div BOX_SIZE = boxCol)
       [0..<BOARD_SIZE]"

definition groups :: "nat list list" where
  "groups = map row_group [0..<GRID_SIZE] @ map col_group [0..<GRID_SIZE] @
            concat (map (\<lambda>boxRow. map (box_group boxRow) [0..<BOX_SIZE]) [0..<BOX_SIZE])"

definition each_once :: "int list \<Rightarrow> bool" where
  "each_once vs = list_all (\<lambda>v. count_list vs v = 1) [1..9]"

definition valid_grid :: "int list \<Rightarrow> bool" where
  "valid_grid g = (length g = BOARD_SIZE \<and> list_all (\<lambda>grp. each_once (map (\<lambda>k. g ! k) grp)) groups)"

definition keeps_clues :: "int list \<Rightarrow> int list \<Rightarrow> bool" where
  "keeps_clues board g = list_all (\<lambda>k. board ! k \<noteq> 0 \<longrightarrow> g ! k = board ! k) [0..<BOARD_SIZE]"

definition is_solution :: "int list \<Rightarrow> int list \<Rightarrow> bool" where
  "is_solution board g = (valid_grid g \<and> keeps_clues board g)"

text \<open>Two positions of the board that share a row, a column or a box.\<close>

definition same_group :: "nat \<Rightarrow> nat \<Rightarrow> bool" where
  "same_group i j =
     (i div GRID_SIZE = j div GRID_SIZE \<or>
      i mod GRID_SIZE = j mod GRID_SIZE \<or>
      ((i div GRID_SIZE) div BOX_SIZE = (j div GRID_SIZE) div BOX_SIZE \<and>
       (i mod GRID_SIZE) div BOX_SIZE = (j mod GRID_SIZE) div BOX_SIZE))"

text \<open>The shape and range precondition on the \<^verbatim>\<open>board\<close> of a request.\<close>

fun well_formed_board :: "js_value \<Rightarrow> bool" where
  "well_formed_board (JArray vs) =
     (length vs = BOARD_SIZE \<and>
      list_all (\<lambda>v. case v of JNumber x \<Rightarrow> x \<in> \<int> \<and> 0 \<le> x \<and> x \<le> 9 | _ \<Rightarrow> False) vs)"
| "well_formed_board v = False"

text \<open>The cells of a box in the order of the encoder's loops.\<close>

definition box_list :: "nat \<Rightarrow> nat \<Rightarrow> nat list" where
  "box_list boxRow boxCol =
     concat (map (\<lambda>row. map (\<lambda>col. (boxRow * BOX_SIZE + row) * GRID_SIZE + (boxCol * BOX_SIZE + col))
        [0..<BOX_SIZE]) [0..<BOX_SIZE])"

subsection \<open>Backends and boards for the examples\<close>

text \<open>
  \<open>guess_backend grids\<close> is a small solver that meets the contract: it answers \<open>Sat\<close>
  with the first of its candidate grids that satisfies the assertions, \<open>Unsat\<close> when the
  assertions hold a disjunction whose disjuncts are all negations of other assertions,
  and \<open>Unknown\<close> otherwise. \<open>silent_backend\<close> always gives up. \<open>garbled_backend\<close>
  breaks the contract: its model prints no number.
\<close>

definition grid_assignment :: "int list \<Rightarrow> assignment" where
  "grid_assignment g x =
     (case x of
        [cx, u1, r, u2, c] \<Rightarrow>
          if cx = CHR ''x'' \<and> u1 = CHR ''_'' \<and> u2 = CHR ''_'' \<and> is_digit r \<and> is_digit c
             \<and> digit_val r * GRID_SIZE + digit_val c < length g
          then g ! (digit_val r * GRID_SIZE + digit_val c) else 0
      | _ \<Rightarrow> 0)"

definition refuted :: "z3_bool list \<Rightarrow> bool" where
  "refuted cs = list_ex (\<lambda>c. case c of
       Z3Or ds \<Rightarrow> list_all (\<lambda>d. case d of Z3Not e \<Rightarrow> e \<in> set cs | _ \<Rightarrow> False) ds
     | _ \<Rightarrow> False) cs"

definition guess_backend :: "int list list \<Rightarrow> backend" where
  "guess_backend grids =
     \<lparr>decide = (\<lambda>cs. case find (\<lambda>g. satisfies (grid_assignment g) cs) grids of
                  Some g \<Rightarrow> Sat
                | None \<Rightarrow> if refuted cs then Unsat else Unknown),
      evaluate = (\<lambda>cs e. case find (\<lambda>g. satisfies (grid_assignment g) cs) grids of
                  Some g \<Rightarrow> show_int (eval_int (grid_assignment g) e)
                | None \<Rightarrow> '''')\<rparr>"

definition silent_backend :: backend where
  "silent_backend = \<lparr>decide = (\<lambda>cs. Unknown), evaluate = (\<lambda>cs e. '''')\<rparr>"

definition garbled_backend :: backend where
  "garbled_backend = \<lparr>decide = (\<lambda>cs. Sat), evaluate = (\<lambda>cs e. ''?'')\<rparr>"

definition grid1 :: "int list" where
  "grid1 = [5,3,4,6,7,8,9,1,2,
            6,7,2,1,9,5,3,4,8,
            1,9,8,3,4,2,5,6,7,
            8,5,9,7,6,1,4,2,3,
            4,2,6,8,5,3,7,9,1,
            7,1,3,9,2,4,8,5,6,
            9,6,1,5,3,7,2,8,4,
            2,8,7,4,1,9,6,3,5,
            3,4,5,2,8,6,1,7,9]"

definition grid2 :: "int list" where
  "grid2 = [5,3,4,6,7,8,9,2,1,
            6,7,1,2,9,5,3,4,8,
            2,9,8,3,4,1,5,6,7,
            8,5,9,7,6,2,4,1,3,
            4,1,6,8,5,3,7,9,2,
            7,2,3,9,1,4,8,5,6,
            9,6,2,5,3,7,1,8,4,
            1,8,7,4,2,9,6,3,5,
            3,4,5,1,8,6,2,7,9]"

definition puzzle1 :: "int list" where
  "puzzle1 = [5,3,0,0,7,0,0,0,0,
              6,0,0,1,9,5,0,0,0,
              0,9,8,0,0,0,0,6,0,
              8,0,0,0,6,0,0,0,3,
              4,0,0,8,0,3,0,0,1,
              7,0,0,0,2,0,0,0,6,
              0,6,0,0,0,0,2,8,0,
              0,0,0,4,1,9,0,0,5,
              0,0,0,0,8,0,0,7,9]"

definition empty_board :: "int list" where
  "empty_board = replicate 81 0"

definition duplicate_board :: "int list" where
  "duplicate_board = 5 # 5 # replicate 79 0"

definition board_payload :: "int list \<Rightarrow> js_value" where
  "board_payload board = JObject [(''board'', JArray (map (\<lambda>v. JNumber (of_int v)) board))]"

section \<open>Properties\<close>

subsection \<open>The loops of the encoder in closed form\<close>

lemma fold_snoc: "fold (\<lambda>i acc. acc @ [h i]) is acc = acc @ map h is"
  by (induction "is" arbitrary: acc) simp_all

lemma fold_snoc2:
  "fold (\<lambda>i acc. fold (\<lambda>j acc. acc @ [h i j]) js acc) is acc
     = acc @ concat (map (\<lambda>i. map (h i) js) is)"
  by (induction "is" arbitrary: acc) (simp_all add: fold_snoc)

lemma fold_add: "fold (\<lambda>i s. add s (k i)) is s = s\<lparr>assertions := assertions s @ map k is\<rparr>"
  by (induction "is" arbitrary: s) (simp_all add: add_def)

lemma fold_add2:
  "fold (\<lambda>i s. fold (\<lambda>j s. add s (k i j)) js s) is s
     = s\<lparr>assertions := assertions s @ concat (map (\<lambda>i. map (k i) js) is)\<rparr>"
  by (induction "is" arbitrary: s) (simp_all add: fold_add)

lemma for_each_append:
  assumes "\<And>i cells s. i \<in> set is \<Longrightarrow>
             body i (cells, s) = Inr (cells @ f i, s\<lparr>assertions := assertions s @ g i\<rparr>)"
  shows "for_each is body (cells, s)
           = Inr (cells @ concat (map f is), s\<lparr>assertions := assertions s @ concat (map g is)\<rparr>)"
  using assms by (induction "is" arbitrary: cells s) simp_all

lemma declare_cell_ok:
  "row * GRID_SIZE + col < length board \<Longrightarrow>
   declare_cell board row col (cells, s)
     = Inr (cells @ [Z3Int (cell_name row col)],
            s\<lparr>assertions := assertions s @ cell_constraints board row col\<rparr>)"
  by (simp add: declare_cell_def js_index_def cell_constraints_def add_def Let_def)

lemma declare_row_ok:
  assumes "BOARD_SIZE \<le> length board" "row < GRID_SIZE"
  shows "for_each [0..<GRID_SIZE] (\<lambda>col. declare_cell board row col) (cells, s)
     = Inr (cells @ concat (map (\<lambda>col. [Z3Int (cell_name row col)]) [0..<GRID_SIZE]),
            s\<lparr>assertions := assertions s @ concat (map (cell_constraints board row) [0..<GRID_SIZE])\<rparr>)"
proof (rule for_each_append)
  fix col cells s
  assume "col \<in> set [0..<GRID_SIZE]"
  then have "row * GRID_SIZE + col < length board"
    using assms by (simp add: BOARD_SIZE_def GRID_SIZE_def)
  then show "declare_cell board row col (cells, s)
     = Inr (cells @ [Z3Int (cell_name row col)],
            s\<lparr>assertions := assertions s @ cell_constraints board row col\<rparr>)"
    by (rule declare_cell_ok)
qed

lemma concat_singletons: "concat (map (\<lambda>x. [f x]) xs) = map f xs"
  by (induction xs) simp_all

lemma declare_cells_ok:
  assumes "BOARD_SIZE \<le> length board"
  shows "declare_cells board = Inr (cell_vars, \<lparr>assertions = cell_assertions board, calls = []\<rparr>)"
proof -
  have "for_each [0..<GRID_SIZE] (\<lambda>row. for_each [0..<GRID_SIZE] (\<lambda>col. declare_cell board row col))
          ([], Solver)
        = Inr ([] @ concat (map (\<lambda>row. concat (map (\<lambda>col. [Z3Int (cell_name row col)]) [0..<GRID_SIZE])) [0..<GRID_SIZE]),
               Solver\<lparr>assertions := assertions Solver @
                 concat (map (\<lambda>row. concat (map (cell_constraints board row) [0..<GRID_SIZE])) [0..<GRID_SIZE])\<rparr>)"
    by (rule for_each_append) (simp add: declare_row_ok [OF assms])
  then show ?thesis
    by (simp add: declare_cells_def cell_vars_def cell_names_def cell_assertions_def Solver_def
        concat_singletons map_concat comp_def)
qed

lemma nth_concat_uniform:
  "r < m \<Longrightarrow> c < n \<Longrightarrow> concat (map (\<lambda>r. map (f r) [0..<n]) [0..<m]) ! (r * n + c) = f r c"
proof (induction m)
  case 0
  then show ?case by simp
next
  case (Suc m)
  have len: "length (concat (map (\<lambda>r. map (f r) [0..<n]) [0..<m])) = m * n"
    by (induction m) simp_all
  show ?case
  proof (cases "r < m")
    case True
    then have "r * n + c < m * n"
      using Suc.prems(2)
      by (metis Suc_leI add.commute add_less_cancel_left le_trans less_le_not_le mult_Suc mult_le_mono1 not_le) 
    with True Suc show ?thesis by (simp add: nth_append len)
  next
    case False
    with Suc.prems have "r = m" by simp
    with Suc.prems show ?thesis by (simp add: nth_append len)
  qed
qed

lemma cell_vars_nth:
  "row < GRID_SIZE \<Longrightarrow> col < GRID_SIZE \<Longrightarrow> cell_vars ! (row * GRID_SIZE + col) = Z3Int (cell_name row col)"
  unfolding cell_vars_def cell_names_def map_concat
  using nth_concat_uniform [of row GRID_SIZE col GRID_SIZE "\<lambda>r c. Z3Int (cell_name r c)"]
  by (simp add: comp_def)

lemma row_cells_eq:
  "row < GRID_SIZE \<Longrightarrow> row_cells cell_vars row = map (\<lambda>col. Z3Int (cell_name row col)) [0..<GRID_SIZE]"
  by (simp add: row_cells_def fold_snoc cell_vars_nth)

lemma col_cells_eq:
  "col < GRID_SIZE \<Longrightarrow> col_cells cell_vars col = map (\<lambda>row. Z3Int (cell_name row col)) [0..<GRID_SIZE]"
  by (simp add: col_cells_def fold_snoc cell_vars_nth)

lemma box_cells_eq:
  assumes "boxRow < BOX_SIZE" "boxCol < BOX_SIZE"
  shows "box_cells cell_vars boxRow boxCol =
     concat (map (\<lambda>row. map (\<lambda>col.
           Z3Int (cell_name (boxRow * BOX_SIZE + row) (boxCol * BOX_SIZE + col))) [0..<BOX_SIZE]) [0..<BOX_SIZE])"
proof -
  have nth: "cell_vars ! ((boxRow * BOX_SIZE + row) * GRID_SIZE + (boxCol * BOX_SIZE + col))
        = Z3Int (cell_name (boxRow * BOX_SIZE + row) (boxCol * BOX_SIZE + col))"
    if "row \<in> set [0..<BOX_SIZE]" "col \<in> set [0..<BOX_SIZE]" for row col
    using assms that by (intro cell_vars_nth) (simp_all add: BOX_SIZE_def GRID_SIZE_def)
  have "map (\<lambda>row. map (\<lambda>col.
           cell_vars ! ((boxRow * BOX_SIZE + row) * GRID_SIZE + (boxCol * BOX_SIZE + col)))
             [0..<BOX_SIZE]) [0..<BOX_SIZE]
      = map (\<lambda>row. map (\<lambda>col.
           Z3Int (cell_name (boxRow * BOX_SIZE + row) (boxCol * BOX_SIZE + col)))
             [0..<BOX_SIZE]) [0..<BOX_SIZE]"
    by (rule map_cong [OF refl], rule map_cong [OF refl], rule nth)
  then show ?thesis
    by (simp only: box_cells_def Let_def fold_snoc2 append_Nil)
qed

lemma add_rows_eq:
  "add_row_constraints cell_vars s = s\<lparr>assertions := assertions s @ row_assertions\<rparr>"
proof -
  have "map (\<lambda>row. Z3Distinct (row_cells cell_vars row)) [0..<GRID_SIZE] = row_assertions"
    unfolding row_assertions_def by (rule map_cong [OF refl]) (simp add: row_cells_eq)
  then show ?thesis by (simp only: add_row_constraints_def fold_add)
qed

lemma add_columns_eq:
  "add_column_constraints cell_vars s = s\<lparr>assertions := assertions s @ column_assertions\<rparr>"
proof -
  have "map (\<lambda>col. Z3Distinct (col_cells cell_vars col)) [0..<GRID_SIZE] = column_assertions"
    unfolding column_assertions_def by (rule map_cong [OF refl]) (simp add: col_cells_eq)
  then show ?thesis by (simp only: add_column_constraints_def fold_add)
qed

lemma add_subgrids_eq:
  "add_subgrid_constraints cell_vars s = s\<lparr>assertions := assertions s @ subgrid_assertions\<rparr>"
proof -
  have "map (\<lambda>boxRow. map (\<lambda>boxCol. Z3Distinct (box_cells cell_vars boxRow boxCol)) [0..<BOX_SIZE])
          [0..<BOX_SIZE]
      = map (\<lambda>boxRow. map (\<lambda>boxCol.
        Z3Distinct (concat (map (\<lambda>row. map (\<lambda>col.
           Z3Int (cell_name (boxRow * BOX_SIZE + row) (boxCol * BOX_SIZE + col))) [0..<BOX_SIZE]) [0..<BOX_SIZE])))
        [0..<BOX_SIZE]) [0..<BOX_SIZE]"
    by (rule map_cong [OF refl], rule map_cong [OF refl]) (simp add: box_cells_eq)
  then show ?thesis by (simp only: add_subgrid_constraints_def fold_add2 subgrid_assertions_def)
qed

lemma encode_ok:
  assumes "BOARD_SIZE \<le> length board"
  shows "encode board = Inr (cell_vars, \<lparr>assertions = constraint_system board, calls = []\<rparr>)"
  by (simp add: encode_def declare_cells_ok [OF assms] add_rows_eq add_columns_eq
      add_subgrids_eq constraint_system_def)

lemma for_each_Inr_body:
  "for_each is body s = Inr s' \<Longrightarrow> i \<in> set is \<Longrightarrow> \<exists>s0 s1. body i s0 = Inr s1"
proof (induction "is" arbitrary: s)
  case Nil
  then show ?case by simp
next
  case (Cons j js)
  then show ?case by (auto split: sum.splits)
qed

lemma encode_Inr_length:
  assumes "encode board = Inr r"
  shows "BOARD_SIZE \<le> length board"
proof -
  from assms obtain r' where r': "declare_cells board = Inr r'"
    by (auto simp: encode_def split: sum.splits)
  have "\<exists>s0 s1. (\<lambda>row. for_each [0..<GRID_SIZE] (\<lambda>col. declare_cell board row col)) 8 s0 = Inr s1"
    by (rule for_each_Inr_body [OF r' [unfolded declare_cells_def]]) (simp add: GRID_SIZE_def)
  then obtain s0 s1 where
    row8: "for_each [0..<GRID_SIZE] (\<lambda>col. declare_cell board 8 col) s0 = Inr s1"
    by auto
  have "\<exists>t0 t1. (\<lambda>col. declare_cell board 8 col) 8 t0 = Inr t1"
    by (rule for_each_Inr_body [OF row8]) (simp add: GRID_SIZE_def)
  then obtain t0 t1 where "declare_cell board 8 8 t0 = Inr t1"
    by auto
  then show ?thesis
    by (auto simp: declare_cell_def js_index_def Let_def GRID_SIZE_def BOARD_SIZE_def
        split: prod.splits if_splits option.splits)
qed

subsection \<open>Groups that hold each value once\<close>

lemma distinct_count_list: "distinct xs \<longleftrightarrow> (\<forall>a\<in>set xs. count_list xs a = 1)"
proof (induction xs)
  case Nil
  then show ?case by simp
next
  case (Cons x xs)
  show ?case
  proof (cases "x \<in> set xs")
    case True
    then have "count_list xs x \<noteq> 0" by (simp add: count_list_0_iff)
    with True show ?thesis by auto
  next
    case False
    then have "\<And>a. a \<in> set xs \<Longrightarrow> x \<noteq> a" by auto
    with False Cons show ?thesis by simp
  qed
qed

lemma each_once_iff:
  assumes "length vs = 9"
  shows "each_once vs \<longleftrightarrow> distinct vs \<and> (\<forall>v\<in>set vs. 1 \<le> v \<and> v \<le> 9)"
proof
  assume eo: "each_once vs"
  then have c1: "\<And>v. v \<in> {1..9} \<Longrightarrow> count_list vs v = 1"
    by (simp add: each_once_def list_all_iff)
  then have sub: "{1..9} \<subseteq> set vs"
    by (metis count_list_0_iff subsetI zero_neq_one)
  have "sum (count_list vs) (set vs) = length vs"
    by (rule sum_count_set) simp_all
  moreover have "sum (count_list vs) (set vs)
      = sum (count_list vs) (set vs - {1..9}) + sum (count_list vs) {1..9}"
    by (rule sum.subset_diff [OF sub]) simp
  moreover have "sum (count_list vs) {1..9} = 9"
    using c1 by simp
  ultimately have "sum (count_list vs) (set vs - {1..9}) = 0"
    using assms by simp
  then have "\<And>v. v \<in> set vs - {1..9} \<Longrightarrow> count_list vs v = 0"
    by simp
  then have "set vs - {1..9} = {}"
    by (metis DiffD1 count_list_0_iff equals0I)
  with sub have seteq: "set vs = {1..9}" by auto
  have "distinct vs"
    unfolding distinct_count_list using c1 seteq by simp
  with seteq show "distinct vs \<and> (\<forall>v\<in>set vs. 1 \<le> v \<and> v \<le> 9)" by auto
next
  assume a: "distinct vs \<and> (\<forall>v\<in>set vs. 1 \<le> v \<and> v \<le> 9)"
  then have "set vs \<subseteq> {1..9}" by auto
  moreover have "card (set vs) = 9"
    using a assms by (simp add: distinct_card)
  ultimately have "set vs = {1..9}"
    by (intro card_subset_eq) simp_all
  then show "each_once vs"
    using a by (simp add: each_once_def list_all_iff distinct_count_list)
qed

lemma box_group_list_all:
  "list_all (\<lambda>boxRow. list_all (\<lambda>boxCol. box_group boxRow boxCol = box_list boxRow boxCol) [0..<3]) [0..<3]"
  by code_simp

lemma box_group_eq:
  "boxRow < BOX_SIZE \<Longrightarrow> boxCol < BOX_SIZE \<Longrightarrow> box_group boxRow boxCol = box_list boxRow boxCol"
  using box_group_list_all by (simp add: list_all_iff BOX_SIZE_def)

lemma map_box_list:
  "map f (box_list boxRow boxCol) =
     concat (map (\<lambda>row. map (\<lambda>col. f ((boxRow * BOX_SIZE + row) * GRID_SIZE + (boxCol * BOX_SIZE + col)))
        [0..<BOX_SIZE]) [0..<BOX_SIZE])"
  by (simp add: box_list_def map_concat comp_def)

lemma length_concat_uniform:
  "length (concat (map (\<lambda>r. map (f r) [0..<n]) [0..<m])) = m * n"
  by (induction m) simp_all

lemma set_concat_uniform:
  "set (concat (map (\<lambda>r. map (f r) [0..<n]) [0..<m])) = {f r c | r c. r < m \<and> c < n}"
  by auto blast

lemma each_once_row:
  "each_once (map (\<lambda>k. g ! k) (row_group row)) \<longleftrightarrow>
     distinct (map (\<lambda>col. g ! (row * GRID_SIZE + col)) [0..<GRID_SIZE]) \<and>
     (\<forall>col<GRID_SIZE. 1 \<le> g ! (row * GRID_SIZE + col) \<and> g ! (row * GRID_SIZE + col) \<le> 9)"
proof -
  have "length (map (\<lambda>k. g ! k) (row_group row)) = 9"
    by (simp add: row_group_def GRID_SIZE_def)
  then show ?thesis
    by (auto simp add: each_once_iff row_group_def comp_def)
qed

lemma each_once_col:
  "each_once (map (\<lambda>k. g ! k) (col_group col)) \<longleftrightarrow>
     distinct (map (\<lambda>row. g ! (row * GRID_SIZE + col)) [0..<GRID_SIZE]) \<and>
     (\<forall>row<GRID_SIZE. 1 \<le> g ! (row * GRID_SIZE + col) \<and> g ! (row * GRID_SIZE + col) \<le> 9)"
proof -
  have "length (map (\<lambda>k. g ! k) (col_group col)) = 9"
    by (simp add: col_group_def GRID_SIZE_def)
  then show ?thesis
    by (auto simp add: each_once_iff col_group_def comp_def)
qed

lemma each_once_box:
  "each_once (map (\<lambda>k. g ! k) (box_list boxRow boxCol)) \<longleftrightarrow>
     distinct (map (\<lambda>k. g ! k) (box_list boxRow boxCol)) \<and>
     (\<forall>row<BOX_SIZE. \<forall>col<BOX_SIZE.
         1 \<le> g ! ((boxRow * BOX_SIZE + row) * GRID_SIZE + (boxCol * BOX_SIZE + col)) \<and>
         g ! ((boxRow * BOX_SIZE + row) * GRID_SIZE + (boxCol * BOX_SIZE + col)) \<le> 9)"
proof -
  have "length (map (\<lambda>k. g ! k) (box_list boxRow boxCol)) = 9"
    by (simp add: box_list_def length_concat_uniform BOX_SIZE_def)
  moreover have "set (box_list boxRow boxCol) =
      {(boxRow * BOX_SIZE + row) * GRID_SIZE + (boxCol * BOX_SIZE + col) | row col.
         row < BOX_SIZE \<and> col < BOX_SIZE}"
    unfolding box_list_def by (rule set_concat_uniform)
  ultimately show ?thesis
    by (simp add: each_once_iff) blast
qed

lemma box_bounds:
  "boxRow < BOX_SIZE \<Longrightarrow> row < BOX_SIZE \<Longrightarrow> boxRow * BOX_SIZE + row < GRID_SIZE"
  by (simp add: BOX_SIZE_def GRID_SIZE_def)

lemma list_all_upt: "list_all P [0..<n] \<longleftrightarrow> (\<forall>k<n. P k)"
  by (auto simp: list_all_iff)

lemma list_all_upt2:
  "list_all P (concat (map (\<lambda>i. map (f i) [0..<n]) [0..<m])) \<longleftrightarrow> (\<forall>i<m. \<forall>j<n. P (f i j))"
  by (auto simp: list_all_iff)

lemma list_all_map_upt: "list_all P (map f [0..<n]) \<longleftrightarrow> (\<forall>k<n. P (f k))"
  by (auto simp: list_all_iff)

lemma valid_grid_each_once:
  assumes "length g = BOARD_SIZE"
  shows "valid_grid g \<longleftrightarrow>
      (\<forall>row<GRID_SIZE. each_once (map (\<lambda>k. g ! k) (row_group row))) \<and>
      (\<forall>col<GRID_SIZE. each_once (map (\<lambda>k. g ! k) (col_group col))) \<and>
      (\<forall>boxRow<BOX_SIZE. \<forall>boxCol<BOX_SIZE. each_once (map (\<lambda>k. g ! k) (box_list boxRow boxCol)))"
proof -
  have "(\<forall>boxRow<BOX_SIZE. \<forall>boxCol<BOX_SIZE. each_once (map (\<lambda>k. g ! k) (box_group boxRow boxCol)))
    \<longleftrightarrow> (\<forall>boxRow<BOX_SIZE. \<forall>boxCol<BOX_SIZE. each_once (map (\<lambda>k. g ! k) (box_list boxRow boxCol)))"
    by (simp add: box_group_eq)
  then show ?thesis
    using assms
    by (simp only: valid_grid_def groups_def list_all_append list_all_map_upt list_all_upt2
        simp_thms)
qed

lemma valid_grid_iff:
  assumes "length g = BOARD_SIZE"
  shows "valid_grid g \<longleftrightarrow>
     (\<forall>row<GRID_SIZE. \<forall>col<GRID_SIZE.
         1 \<le> g ! (row * GRID_SIZE + col) \<and> g ! (row * GRID_SIZE + col) \<le> 9) \<and>
     (\<forall>row<GRID_SIZE. distinct (map (\<lambda>col. g ! (row * GRID_SIZE + col)) [0..<GRID_SIZE])) \<and>
     (\<forall>col<GRID_SIZE. distinct (map (\<lambda>row. g ! (row * GRID_SIZE + col)) [0..<GRID_SIZE])) \<and>
     (\<forall>boxRow<BOX_SIZE. \<forall>boxCol<BOX_SIZE. distinct (map (\<lambda>k. g ! k) (box_list boxRow boxCol)))"
    (is "_ \<longleftrightarrow> ?range \<and> ?rows \<and> ?cols \<and> ?boxes")
proof -
  have box: "1 \<le> g ! ((boxRow * BOX_SIZE + row) * GRID_SIZE + (boxCol * BOX_SIZE + col)) \<and>
         g ! ((boxRow * BOX_SIZE + row) * GRID_SIZE + (boxCol * BOX_SIZE + col)) \<le> 9"
    if "?range" "boxRow < BOX_SIZE" "boxCol < BOX_SIZE" "row < BOX_SIZE" "col < BOX_SIZE"
    for boxRow boxCol row col
  proof -
    have "boxRow * BOX_SIZE + row < GRID_SIZE" "boxCol * BOX_SIZE + col < GRID_SIZE"
      using that by (simp_all add: box_bounds)
    with that(1) show ?thesis by blast
  qed
  show ?thesis
    unfolding valid_grid_each_once [OF assms] each_once_row each_once_col each_once_box
  proof (intro iffI conjI)
    assume a: "(\<forall>row<GRID_SIZE.
         distinct (map (\<lambda>col. g ! (row * GRID_SIZE + col)) [0..<GRID_SIZE]) \<and>
         (\<forall>col<GRID_SIZE. 1 \<le> g ! (row * GRID_SIZE + col) \<and> g ! (row * GRID_SIZE + col) \<le> 9)) \<and>
     (\<forall>col<GRID_SIZE.
         distinct (map (\<lambda>row. g ! (row * GRID_SIZE + col)) [0..<GRID_SIZE]) \<and>
         (\<forall>row<GRID_SIZE. 1 \<le> g ! (row * GRID_SIZE + col) \<and> g ! (row * GRID_SIZE + col) \<le> 9)) \<and>
     (\<forall>boxRow<BOX_SIZE. \<forall>boxCol<BOX_SIZE.
         distinct (map (\<lambda>k. g ! k) (box_list boxRow boxCol)) \<and>
         (\<forall>row<BOX_SIZE. \<forall>col<BOX_SIZE.
             1 \<le> g ! ((boxRow * BOX_SIZE + row) * GRID_SIZE + (boxCol * BOX_SIZE + col)) \<and>
             g ! ((boxRow * BOX_SIZE + row) * GRID_SIZE + (boxCol * BOX_SIZE + col)) \<le> 9))"
    from a show ?range by simp
    from a show ?rows by simp
    from a show ?cols by simp
    from a show ?boxes by simp
  next
    assume b: "?range \<and> ?rows \<and> ?cols \<and> ?boxes"
    then show "\<forall>row<GRID_SIZE.
         distinct (map (\<lambda>col. g ! (row * GRID_SIZE + col)) [0..<GRID_SIZE]) \<and>
         (\<forall>col<GRID_SIZE. 1 \<le> g ! (row * GRID_SIZE + col) \<and> g ! (row * GRID_SIZE + col) \<le> 9)"
      by simp
    from b show "\<forall>col<GRID_SIZE.
         distinct (map (\<lambda>row. g ! (row * GRID_SIZE + col)) [0..<GRID_SIZE]) \<and>
         (\<forall>row<GRID_SIZE. 1 \<le> g ! (row * GRID_SIZE + col) \<and> g ! (row * GRID_SIZE + col) \<le> 9)"
      by simp
    from b have "?range" and "?boxes" by simp_all
    then show "\<forall>boxRow<BOX_SIZE. \<forall>boxCol<BOX_SIZE.
         distinct (map (\<lambda>k. g ! k) (box_list boxRow boxCol)) \<and>
         (\<forall>row<BOX_SIZE. \<forall>col<BOX_SIZE.
             1 \<le> g ! ((boxRow * BOX_SIZE + row) * GRID_SIZE + (boxCol * BOX_SIZE + col)) \<and>
             g ! ((boxRow * BOX_SIZE + row) * GRID_SIZE + (boxCol * BOX_SIZE + col)) \<le> 9)"
      using box by simp
  qed
qed

lemma keeps_clues_iff:
  "keeps_clues board g \<longleftrightarrow>
     (\<forall>row<GRID_SIZE. \<forall>col<GRID_SIZE.
        board ! (row * GRID_SIZE + col) \<noteq> 0 \<longrightarrow> g ! (row * GRID_SIZE + col) = board ! (row * GRID_SIZE + col))"
proof
  assume k: "keeps_clues board g"
  show "\<forall>row<GRID_SIZE. \<forall>col<GRID_SIZE.
        board ! (row * GRID_SIZE + col) \<noteq> 0 \<longrightarrow> g ! (row * GRID_SIZE + col) = board ! (row * GRID_SIZE + col)"
  proof (intro allI impI)
    fix row col
    assume "row < GRID_SIZE" "col < GRID_SIZE" "board ! (row * GRID_SIZE + col) \<noteq> 0"
    moreover from this have "row * GRID_SIZE + col < BOARD_SIZE"
      by (simp add: GRID_SIZE_def BOARD_SIZE_def)
    ultimately show "g ! (row * GRID_SIZE + col) = board ! (row * GRID_SIZE + col)"
      using k by (simp add: keeps_clues_def list_all_upt)
  qed
next
  assume r: "\<forall>row<GRID_SIZE. \<forall>col<GRID_SIZE.
        board ! (row * GRID_SIZE + col) \<noteq> 0 \<longrightarrow> g ! (row * GRID_SIZE + col) = board ! (row * GRID_SIZE + col)"
  show "keeps_clues board g"
    unfolding keeps_clues_def list_all_upt
  proof (intro allI impI)
    fix k
    assume k: "k < BOARD_SIZE" "board ! k \<noteq> 0"
    then have "k div GRID_SIZE < GRID_SIZE" "k mod GRID_SIZE < GRID_SIZE"
      and eq: "k div GRID_SIZE * GRID_SIZE + k mod GRID_SIZE = k"
      by (simp_all add: GRID_SIZE_def BOARD_SIZE_def)
    with r have "board ! (k div GRID_SIZE * GRID_SIZE + k mod GRID_SIZE) \<noteq> 0 \<longrightarrow>
        g ! (k div GRID_SIZE * GRID_SIZE + k mod GRID_SIZE)
          = board ! (k div GRID_SIZE * GRID_SIZE + k mod GRID_SIZE)"
      by blast
    with k show "g ! k = board ! k" unfolding eq by simp
  qed
qed

subsection \<open>What the constraint system says about a grid\<close>

lemma length_cell_names: "length cell_names = BOARD_SIZE"
  by (simp add: cell_names_def length_concat_uniform BOARD_SIZE_def)

lemma cell_names_nth:
  "row < GRID_SIZE \<Longrightarrow> col < GRID_SIZE \<Longrightarrow> cell_names ! (row * GRID_SIZE + col) = cell_name row col"
  unfolding cell_names_def by (rule nth_concat_uniform)

lemma index_bound:
  "row < GRID_SIZE \<Longrightarrow> col < GRID_SIZE \<Longrightarrow> row * GRID_SIZE + col < BOARD_SIZE"
  by (simp add: GRID_SIZE_def BOARD_SIZE_def)

lemma grid_of_nth:
  "row < GRID_SIZE \<Longrightarrow> col < GRID_SIZE \<Longrightarrow> grid_of a ! (row * GRID_SIZE + col) = a (cell_name row col)"
  by (simp add: grid_of_def length_cell_names index_bound cell_names_nth)

lemma length_grid_of: "length (grid_of a) = BOARD_SIZE"
  by (simp add: grid_of_def length_cell_names)

lemma satisfies_append: "satisfies a (xs @ ys) \<longleftrightarrow> satisfies a xs \<and> satisfies a ys"
  by (simp add: satisfies_def)

lemma list_all_concat_upt: "list_all P (concat (map f [0..<n])) \<longleftrightarrow> (\<forall>i<n. list_all P (f i))"
  by (auto simp: list_all_iff)

lemma holds_cell_constraints:
  "list_all (holds a) (cell_constraints board row col) \<longleftrightarrow>
     1 \<le> a (cell_name row col) \<and> a (cell_name row col) \<le> 9 \<and>
        (board ! (row * GRID_SIZE + col) \<noteq> 0 \<longrightarrow>
           a (cell_name row col) = board ! (row * GRID_SIZE + col))"
  by (simp add: cell_constraints_def)

lemma satisfies_cells:
  "satisfies a (cell_assertions board) \<longleftrightarrow>
     (\<forall>row<GRID_SIZE. \<forall>col<GRID_SIZE.
        1 \<le> a (cell_name row col) \<and> a (cell_name row col) \<le> 9 \<and>
        (board ! (row * GRID_SIZE + col) \<noteq> 0 \<longrightarrow>
           a (cell_name row col) = board ! (row * GRID_SIZE + col)))"
  by (simp only: satisfies_def cell_assertions_def list_all_concat_upt holds_cell_constraints)

lemma satisfies_rows:
  "satisfies a row_assertions \<longleftrightarrow>
     (\<forall>row<GRID_SIZE. distinct (map (\<lambda>col. a (cell_name row col)) [0..<GRID_SIZE]))"
  by (simp add: satisfies_def row_assertions_def list_all_map_upt comp_def)

lemma satisfies_columns:
  "satisfies a column_assertions \<longleftrightarrow>
     (\<forall>col<GRID_SIZE. distinct (map (\<lambda>row. a (cell_name row col)) [0..<GRID_SIZE]))"
  by (simp add: satisfies_def column_assertions_def list_all_map_upt comp_def)

lemma satisfies_subgrids:
  "satisfies a subgrid_assertions \<longleftrightarrow>
     (\<forall>boxRow<BOX_SIZE. \<forall>boxCol<BOX_SIZE.
        distinct (concat (map (\<lambda>row. map (\<lambda>col.
           a (cell_name (boxRow * BOX_SIZE + row) (boxCol * BOX_SIZE + col))) [0..<BOX_SIZE]) [0..<BOX_SIZE])))"
  by (simp only: satisfies_def subgrid_assertions_def list_all_upt2 holds.simps map_concat
      map_map comp_def eval_int.simps)

lemma grid_row_eq:
  "row < GRID_SIZE \<Longrightarrow>
   map (\<lambda>col. grid_of a ! (row * GRID_SIZE + col)) [0..<GRID_SIZE]
     = map (\<lambda>col. a (cell_name row col)) [0..<GRID_SIZE]"
  by (rule map_cong [OF refl]) (simp add: grid_of_nth)

lemma grid_col_eq:
  "col < GRID_SIZE \<Longrightarrow>
   map (\<lambda>row. grid_of a ! (row * GRID_SIZE + col)) [0..<GRID_SIZE]
     = map (\<lambda>row. a (cell_name row col)) [0..<GRID_SIZE]"
  by (rule map_cong [OF refl]) (simp add: grid_of_nth)

lemma grid_box_eq:
  assumes "boxRow < BOX_SIZE" "boxCol < BOX_SIZE"
  shows "map (\<lambda>k. grid_of a ! k) (box_list boxRow boxCol)
     = concat (map (\<lambda>row. map (\<lambda>col.
           a (cell_name (boxRow * BOX_SIZE + row) (boxCol * BOX_SIZE + col))) [0..<BOX_SIZE]) [0..<BOX_SIZE])"
proof -
  have "map (\<lambda>row. map (\<lambda>col.
           grid_of a ! ((boxRow * BOX_SIZE + row) * GRID_SIZE + (boxCol * BOX_SIZE + col)))
             [0..<BOX_SIZE]) [0..<BOX_SIZE]
      = map (\<lambda>row. map (\<lambda>col.
           a (cell_name (boxRow * BOX_SIZE + row) (boxCol * BOX_SIZE + col)))
             [0..<BOX_SIZE]) [0..<BOX_SIZE]"
    by (rule map_cong [OF refl], rule map_cong [OF refl], rule grid_of_nth)
       (simp_all add: assms box_bounds)
  then show ?thesis
    by (simp only: map_box_list)
qed

lemma satisfies_system_iff:
  "satisfies a (constraint_system board) \<longleftrightarrow> is_solution board (grid_of a)"
proof -
  have "is_solution board (grid_of a) \<longleftrightarrow>
     (\<forall>row<GRID_SIZE. \<forall>col<GRID_SIZE.
         1 \<le> a (cell_name row col) \<and> a (cell_name row col) \<le> 9) \<and>
     (\<forall>row<GRID_SIZE. distinct (map (\<lambda>col. a (cell_name row col)) [0..<GRID_SIZE])) \<and>
     (\<forall>col<GRID_SIZE. distinct (map (\<lambda>row. a (cell_name row col)) [0..<GRID_SIZE])) \<and>
     (\<forall>boxRow<BOX_SIZE. \<forall>boxCol<BOX_SIZE.
        distinct (concat (map (\<lambda>row. map (\<lambda>col.
           a (cell_name (boxRow * BOX_SIZE + row) (boxCol * BOX_SIZE + col))) [0..<BOX_SIZE]) [0..<BOX_SIZE]))) \<and>
     (\<forall>row<GRID_SIZE. \<forall>col<GRID_SIZE.
        board ! (row * GRID_SIZE + col) \<noteq> 0 \<longrightarrow> a (cell_name row col) = board ! (row * GRID_SIZE + col))"
    by (simp add: is_solution_def valid_grid_iff [OF length_grid_of] keeps_clues_iff
        grid_of_nth grid_row_eq grid_col_eq grid_box_eq conj_assoc)
  also have "\<dots> \<longleftrightarrow> satisfies a (constraint_system board)"
    unfolding constraint_system_def satisfies_append satisfies_cells satisfies_rows
      satisfies_columns satisfies_subgrids
    by blast
  finally show ?thesis by simp
qed

subsection \<open>Extraction and the two rounds\<close>

lemma parseInt_digit:
  "1 \<le> v \<Longrightarrow> v \<le> 9 \<Longrightarrow> parseInt (show_int v) = Some v"
proof -
  assume "1 \<le> v" "v \<le> 9"
  then have "v = 1 \<or> v = 2 \<or> v = 3 \<or> v = 4 \<or> v = 5 \<or> v = 6 \<or> v = 7 \<or> v = 8 \<or> v = 9"
    by arith
  then show ?thesis
    by (elim disjE)
       (simp_all add: parseInt_def show_int_def digit_char_def is_space_def is_digit_def
          digits_val_def digit_val_def)
qed

lemma extract_cell_cases:
  "extract_cell m c acc =
     (case parseInt (m c) of
        None \<Rightarrow> Inl (Error (''Failed to parse solver value: '' @ m c))
      | Some v \<Rightarrow> Inr (acc @ [v]))"
  by (simp add: extract_cell_def Let_def)

lemma extract_ok:
  "(\<And>c. c \<in> set cells \<Longrightarrow> parseInt (m c) = Some (v c)) \<Longrightarrow>
   for_each cells (extract_cell m) acc = Inr (acc @ map v cells)"
proof (induction cells arbitrary: acc)
  case Nil
  then show ?case by simp
next
  case (Cons c cells)
  have "for_each cells (extract_cell m) (acc @ [v c]) = Inr ((acc @ [v c]) @ map v cells)"
    by (rule Cons.IH) (simp add: Cons.prems)
  moreover have "parseInt (m c) = Some (v c)"
    by (simp add: Cons.prems)
  ultimately show ?case
    by (simp add: extract_cell_cases [of m c])
qed

lemma extract_Inr:
  "for_each cells (extract_cell m) acc = Inr sol \<Longrightarrow>
   sol = acc @ map (\<lambda>c. the (parseInt (m c))) cells \<and> (\<forall>c\<in>set cells. parseInt (m c) \<noteq> None)"
proof (induction cells arbitrary: acc)
  case Nil
  then show ?case by simp
next
  case (Cons c cells)
  show ?case
  proof (cases "parseInt (m c)")
    case None
    with Cons.prems show ?thesis by (simp add: extract_cell_cases [of m c])
  next
    case (Some v)
    with Cons.prems have "for_each cells (extract_cell m) (acc @ [v]) = Inr sol"
      by (simp add: extract_cell_cases [of m c])
    from Cons.IH [OF this] Some show ?thesis by simp
  qed
qed

lemma block_constraints_eq:
  "block_constraints cells sol
     = map (\<lambda>i. Z3Not (Z3Eq (cells ! i) (Z3IntVal (sol ! i)))) [0..<length cells]"
  by (simp add: block_constraints_def fold_snoc)

lemma length_cell_vars: "length cell_vars = BOARD_SIZE"
  by (simp add: cell_vars_def length_cell_names)

lemma holds_block:
  assumes "length sol = BOARD_SIZE"
  shows "holds a (Z3Or (block_constraints cell_vars sol)) \<longleftrightarrow> grid_of a \<noteq> sol"
proof -
  have "holds a (Z3Or (block_constraints cell_vars sol))
      \<longleftrightarrow> (\<exists>i<BOARD_SIZE. a (cell_names ! i) \<noteq> sol ! i)"
    by (auto simp: block_constraints_eq list_ex_iff length_cell_vars cell_vars_def
        length_cell_names)
  also have "\<dots> \<longleftrightarrow> grid_of a \<noteq> sol"
    using assms by (auto simp: list_eq_iff_nth_eq grid_of_def length_cell_names)
  finally show ?thesis .
qed

lemma toString_sat: "check_toString r = ''sat'' \<longleftrightarrow> r = Sat"
  by (cases r) simp_all

lemma solve_unfold:
  assumes "BOARD_SIZE \<le> length board"
  shows "solveSudoku_body noSolution B board =
     (if decide B (constraint_system board) \<noteq> Sat then (Inl noSolution, [CallCheck])
      else case for_each cell_vars (extract_cell (evaluate B (constraint_system board))) [] of
             Inl e \<Rightarrow> (Inl e, [CallCheck, CallModel])
           | Inr sol \<Rightarrow>
               (Inr \<lparr>solution = sol,
                     solutionCount = (if decide B (blocked_system board sol) = Sat then 2 else 1)\<rparr>,
                [CallCheck, CallModel, CallCheck]))"
  by (simp add: solveSudoku_body_def encode_ok [OF assms] check_def model_def add_def
      toString_sat Let_def blocked_system_def split: sum.splits)

lemma solve_short:
  assumes "length board < BOARD_SIZE"
  shows "\<exists>e. solveSudoku_body noSolution B board = (Inl e, [])"
proof (cases "encode board")
  case (Inl e)
  then show ?thesis by (simp add: solveSudoku_body_def)
next
  case (Inr r)
  then have "BOARD_SIZE \<le> length board" by (rule encode_Inr_length)
  with assms show ?thesis by simp
qed

lemma extract_model:
  assumes a: "satisfies a (constraint_system board)"
    and ev: "\<And>x. evaluate B (constraint_system board) (Z3Int x) = show_int (a x)"
  shows "for_each cell_vars (extract_cell (evaluate B (constraint_system board))) [] = Inr (grid_of a)"
proof -
  have range: "1 \<le> a x \<and> a x \<le> 9" if "x \<in> set cell_names" for x
  proof -
    from that obtain k where k: "k < BOARD_SIZE" "x = cell_names ! k"
      by (metis in_set_conv_nth length_cell_names)
    then have "k div GRID_SIZE < GRID_SIZE" "k mod GRID_SIZE < GRID_SIZE"
      "k div GRID_SIZE * GRID_SIZE + k mod GRID_SIZE = k"
      by (simp_all add: GRID_SIZE_def BOARD_SIZE_def)
    then have "x = cell_name (k div GRID_SIZE) (k mod GRID_SIZE)"
      using cell_names_nth [of "k div GRID_SIZE" "k mod GRID_SIZE"] k by simp
    moreover from a have "\<forall>row<GRID_SIZE. \<forall>col<GRID_SIZE.
        1 \<le> a (cell_name row col) \<and> a (cell_name row col) \<le> 9"
      by (simp add: constraint_system_def satisfies_append satisfies_cells)
    ultimately show ?thesis
      using \<open>k div GRID_SIZE < GRID_SIZE\<close> \<open>k mod GRID_SIZE < GRID_SIZE\<close> by blast
  qed
  have "for_each cell_vars (extract_cell (evaluate B (constraint_system board))) []
      = Inr ([] @ map (\<lambda>c. eval_int a c) cell_vars)"
  proof (rule extract_ok)
    fix c assume "c \<in> set cell_vars"
    then obtain x where "x \<in> set cell_names" "c = Z3Int x"
      by (auto simp: cell_vars_def)
    then show "parseInt (evaluate B (constraint_system board) c) = Some (eval_int a c)"
      using range [of x] by (simp add: ev parseInt_digit)
  qed
  then show ?thesis
    by (simp add: cell_vars_def grid_of_def comp_def)
qed

lemma sound_model:
  assumes "backend_sound B" "decide B (constraint_system board) = Sat"
  obtains a where "satisfies a (constraint_system board)"
    "\<And>x. evaluate B (constraint_system board) (Z3Int x) = show_int (a x)"
    "for_each cell_vars (extract_cell (evaluate B (constraint_system board))) [] = Inr (grid_of a)"
proof -
  from assms obtain a where a: "satisfies a (constraint_system board)"
    and ev: "\<And>x. evaluate B (constraint_system board) (Z3Int x) = show_int (a x)"
    unfolding backend_sound_def by blast
  from extract_model [OF a ev] a ev that show thesis by blast
qed

lemma solve_success:
  assumes "backend_sound B" "solveSudoku_body noSolution B board = (Inr res, cl)"
  obtains a where "satisfies a (constraint_system board)"
    "solution res = grid_of a"
    "solutionCount res = (if decide B (blocked_system board (grid_of a)) = Sat then 2 else 1)"
    "BOARD_SIZE \<le> length board"
    "decide B (constraint_system board) = Sat"
    "cl = [CallCheck, CallModel, CallCheck]"
    "\<And>x. evaluate B (constraint_system board) (Z3Int x) = show_int (a x)"
proof -
  have len: "BOARD_SIZE \<le> length board"
  proof (rule ccontr)
    assume "\<not> BOARD_SIZE \<le> length board"
    then have "length board < BOARD_SIZE" by simp
    from solve_short [OF this, of noSolution B] assms(2) show False by auto
  qed
  have sat: "decide B (constraint_system board) = Sat"
    using assms(2) unfolding solve_unfold [OF len] by (auto split: if_splits)
  from sound_model [OF assms(1) sat] obtain a where a: "satisfies a (constraint_system board)"
    "\<And>x. evaluate B (constraint_system board) (Z3Int x) = show_int (a x)"
    "for_each cell_vars (extract_cell (evaluate B (constraint_system board))) [] = Inr (grid_of a)"
    by blast
  from assms(2) have "res = \<lparr>solution = grid_of a,
      solutionCount = (if decide B (blocked_system board (grid_of a)) = Sat then 2 else 1)\<rparr>"
    and "cl = [CallCheck, CallModel, CallCheck]"
    unfolding solve_unfold [OF len] by (simp_all add: sat a(3))
  with a len sat that show thesis by simp
qed

subsection \<open>The example backends meet the contract\<close>

lemma digit_roundtrip:
  "d < 9 \<Longrightarrow> is_digit (digit_char d) \<and> digit_val (digit_char d) = d"
proof -
  assume "d < 9"
  then have "d = 0 \<or> d = 1 \<or> d = 2 \<or> d = 3 \<or> d = 4 \<or> d = 5 \<or> d = 6 \<or> d = 7 \<or> d = 8"
    by arith
  then show ?thesis
    by (elim disjE) (simp_all add: is_digit_def digit_char_def digit_val_def)
qed

lemma grid_assignment_cell:
  assumes "row < GRID_SIZE" "col < GRID_SIZE" "length g = BOARD_SIZE"
  shows "grid_assignment g (cell_name row col) = g ! (row * GRID_SIZE + col)"
proof -
  have "row < 9" "col < 9" using assms by (simp_all add: GRID_SIZE_def)
  then have "cell_name row col = [CHR ''x'', CHR ''_'', digit_char row, CHR ''_'', digit_char col]"
    by (simp add: cell_name_def)
  moreover have "row * GRID_SIZE + col < length g"
    using assms by (simp add: index_bound)
  ultimately show ?thesis
    using digit_roundtrip [OF \<open>row < 9\<close>] digit_roundtrip [OF \<open>col < 9\<close>]
    by (simp add: grid_assignment_def)
qed

lemma grid_of_grid_assignment:
  assumes "length g = BOARD_SIZE"
  shows "grid_of (grid_assignment g) = g"
proof (rule nth_equalityI)
  show "length (grid_of (grid_assignment g)) = length g"
    using assms by (simp add: length_grid_of)
next
  fix k assume "k < length (grid_of (grid_assignment g))"
  then have k: "k < BOARD_SIZE" by (simp add: length_grid_of)
  then have b: "k div GRID_SIZE < GRID_SIZE" "k mod GRID_SIZE < GRID_SIZE"
    and eq: "k div GRID_SIZE * GRID_SIZE + k mod GRID_SIZE = k"
    by (simp_all add: GRID_SIZE_def BOARD_SIZE_def)
  have "grid_of (grid_assignment g) ! (k div GRID_SIZE * GRID_SIZE + k mod GRID_SIZE)
      = g ! (k div GRID_SIZE * GRID_SIZE + k mod GRID_SIZE)"
    by (simp only: grid_of_nth [OF b] grid_assignment_cell [OF b assms])
  then show "grid_of (grid_assignment g) ! k = g ! k"
    unfolding eq .
qed

lemma solution_satisfies:
  "is_solution board g \<Longrightarrow> satisfies (grid_assignment g) (constraint_system board)"
  by (simp add: satisfies_system_iff grid_of_grid_assignment is_solution_def valid_grid_def)

lemma refuted_unsat:
  assumes "refuted cs"
  shows "\<not> satisfies a cs"
proof
  assume sat: "satisfies a cs"
  from assms obtain c where c: "c \<in> set cs"
    and r: "(case c of
       Z3Or ds \<Rightarrow> list_all (\<lambda>d. case d of Z3Not e \<Rightarrow> e \<in> set cs | _ \<Rightarrow> False) ds
     | _ \<Rightarrow> False)"
    unfolding refuted_def list_ex_iff by blast
  from r obtain ds where ds: "c = Z3Or ds"
    and all: "\<forall>d\<in>set ds. case d of Z3Not e \<Rightarrow> e \<in> set cs | _ \<Rightarrow> False"
    by (cases c) (simp_all add: list_all_iff)
  from sat c ds have "list_ex (holds a) ds"
    by (auto simp: satisfies_def list_all_iff)
  then obtain d where d: "d \<in> set ds" "holds a d"
    by (auto simp: list_ex_iff)
  with all obtain e where e: "d = Z3Not e" "e \<in> set cs"
    by (cases d) auto
  with sat have "holds a e" by (simp add: satisfies_def list_all_iff)
  with d e show False by simp
qed

lemma guess_backend_sound: "backend_sound (guess_backend grids)"
  unfolding backend_sound_def
proof (intro allI conjI impI)
  fix cs
  assume "decide (guess_backend grids) cs = Sat"
  then obtain g where g: "find (\<lambda>g. satisfies (grid_assignment g) cs) grids = Some g"
    by (auto simp: guess_backend_def split: option.splits if_splits)
  then have "satisfies (grid_assignment g) cs"
    by (auto simp: find_Some_iff)
  moreover have "\<forall>x. evaluate (guess_backend grids) cs (Z3Int x) = show_int (grid_assignment g x)"
    using g by (simp add: guess_backend_def)
  ultimately show "\<exists>a. satisfies a cs \<and> (\<forall>x. evaluate (guess_backend grids) cs (Z3Int x) = show_int (a x))"
    by blast
next
  fix cs a
  assume "decide (guess_backend grids) cs = Unsat"
  then have "refuted cs"
    by (auto simp: guess_backend_def split: option.splits if_splits)
  then show "\<not> satisfies a cs" by (rule refuted_unsat)
qed

lemma silent_backend_sound: "backend_sound silent_backend"
  by (simp add: backend_sound_def silent_backend_def)

lemma solve_inversion:
  assumes "solveSudoku_body noSolution B board = (Inr res, cl)"
  shows "BOARD_SIZE \<le> length board \<and> decide B (constraint_system board) = Sat \<and>
     for_each cell_vars (extract_cell (evaluate B (constraint_system board))) [] = Inr (solution res) \<and>
     solutionCount res = (if decide B (blocked_system board (solution res)) = Sat then 2 else 1) \<and>
     cl = [CallCheck, CallModel, CallCheck]"
proof -
  have len: "BOARD_SIZE \<le> length board"
  proof (rule ccontr)
    assume "\<not> BOARD_SIZE \<le> length board"
    then have "length board < BOARD_SIZE" by simp
    from solve_short [OF this, of noSolution B] assms show False by auto
  qed
  from assms show ?thesis
    unfolding solve_unfold [OF len] using len
    by (auto split: if_splits sum.splits)
qed

subsection \<open>The example boards\<close>

lemma valid_grid1: "valid_grid grid1"
  by code_simp

lemma valid_grid2: "valid_grid grid2"
  by code_simp

lemma puzzle1_clues: "keeps_clues puzzle1 grid1"
  by code_simp

lemma keeps_clues_empty: "keeps_clues empty_board g"
  by (simp add: keeps_clues_def empty_board_def list_all_upt BOARD_SIZE_def GRID_SIZE_def)

lemma grids_differ: "grid2 \<noteq> grid1"
  by (simp add: grid1_def grid2_def)

lemma guess_solve:
  assumes "is_solution board g" "BOARD_SIZE \<le> length board"
  shows "solveSudoku_body noSolution (guess_backend (g # gs)) board =
     (Inr \<lparr>solution = g,
           solutionCount =
             (if decide (guess_backend (g # gs)) (blocked_system board g) = Sat then 2 else 1)\<rparr>,
      [CallCheck, CallModel, CallCheck])"
proof -
  let ?B = "guess_backend (g # gs)"
  let ?cs = "constraint_system board"
  have sat: "satisfies (grid_assignment g) ?cs"
    using assms(1) by (rule solution_satisfies)
  then have d: "decide ?B ?cs = Sat"
    by (simp add: guess_backend_def)
  have ev: "\<And>x. evaluate ?B ?cs (Z3Int x) = show_int (grid_assignment g x)"
    using sat by (simp add: guess_backend_def)
  have len: "length g = BOARD_SIZE"
    using assms(1) by (simp add: is_solution_def valid_grid_def)
  have "for_each cell_vars (extract_cell (evaluate ?B ?cs)) [] = Inr (grid_of (grid_assignment g))"
    using sat ev by (rule extract_model)
  then have "for_each cell_vars (extract_cell (evaluate ?B ?cs)) [] = Inr g"
    by (simp add: grid_of_grid_assignment [OF len])
  then show ?thesis
    unfolding solve_unfold [OF assms(2)] using d by simp
qed

lemma length_groups: "length groups = 27"
  by (simp add: groups_def length_concat_uniform GRID_SIZE_def BOX_SIZE_def)

lemma puzzle1_solved:
  "solveSudoku (guess_backend [grid1]) puzzle1 =
     (Inr \<lparr>solution = grid1,
           solutionCount =
             (if decide (guess_backend [grid1]) (blocked_system puzzle1 grid1) = Sat then 2 else 1)\<rparr>,
      [CallCheck, CallModel, CallCheck])"
proof -
  have "is_solution puzzle1 grid1"
    by (simp add: is_solution_def valid_grid1 puzzle1_clues)
  moreover have "BOARD_SIZE \<le> length puzzle1"
    by (simp add: puzzle1_def BOARD_SIZE_def GRID_SIZE_def)
  ultimately show ?thesis
    unfolding solveSudoku_def by (rule guess_solve)
qed

subsection \<open>The blocked system\<close>

lemma satisfies_single: "satisfies a [c] \<longleftrightarrow> holds a c"
  by (simp add: satisfies_def)

lemma satisfies_blocked:
  assumes "length sol = BOARD_SIZE"
  shows "satisfies a (blocked_system board sol) \<longleftrightarrow> is_solution board (grid_of a) \<and> grid_of a \<noteq> sol"
  by (simp only: blocked_system_def satisfies_append satisfies_single satisfies_system_iff
      holds_block [OF assms])

lemma is_solution_length: "is_solution board g \<Longrightarrow> length g = BOARD_SIZE"
  by (simp add: is_solution_def valid_grid_def)

lemma other_solution_satisfies:
  assumes "is_solution board g'" "g' \<noteq> g" "length g = BOARD_SIZE"
  shows "satisfies (grid_assignment g') (blocked_system board g)"
  using assms
  by (simp add: satisfies_blocked grid_of_grid_assignment is_solution_length)

lemma same_solution_blocked:
  assumes "length g = BOARD_SIZE"
  shows "\<not> satisfies (grid_assignment g) (blocked_system board g)"
  using assms by (simp add: satisfies_blocked grid_of_grid_assignment)

lemma guess_second_single:
  assumes "length g = BOARD_SIZE"
  shows "decide (guess_backend [g]) (blocked_system board g)
     = (if refuted (blocked_system board g) then Unsat else Unknown)"
  using same_solution_blocked [OF assms, of board]
  by (simp add: guess_backend_def)

lemma guess_second_pair:
  assumes "is_solution board g'" "g' \<noteq> g" "length g = BOARD_SIZE"
  shows "decide (guess_backend [g, g']) (blocked_system board g) = Sat"
  using same_solution_blocked [OF assms(3), of board] other_solution_satisfies [OF assms]
  by (simp add: guess_backend_def)

lemma not_refuted: "satisfies a cs \<Longrightarrow> \<not> refuted cs"
  using refuted_unsat by blast

lemma clue_asserted:
  assumes "k < BOARD_SIZE" "board ! k \<noteq> 0"
  shows "Z3Eq (cell_vars ! k) (Z3IntVal (board ! k)) \<in> set (constraint_system board)"
proof -
  from assms(1) have b: "k div GRID_SIZE < GRID_SIZE" "k mod GRID_SIZE < GRID_SIZE"
    and eq: "k div GRID_SIZE * GRID_SIZE + k mod GRID_SIZE = k"
    by (simp_all add: GRID_SIZE_def BOARD_SIZE_def)
  have v: "cell_vars ! k = Z3Int (cell_name (k div GRID_SIZE) (k mod GRID_SIZE))"
    using cell_vars_nth [OF b] unfolding eq .
  have "Z3Eq (Z3Int (cell_name (k div GRID_SIZE) (k mod GRID_SIZE))) (Z3IntVal (board ! k))
      \<in> set (cell_constraints board (k div GRID_SIZE) (k mod GRID_SIZE))"
    using assms(2) by (simp add: cell_constraints_def eq)
  with b have "\<exists>row\<in>set [0..<GRID_SIZE]. \<exists>col\<in>set [0..<GRID_SIZE].
      Z3Eq (Z3Int (cell_name (k div GRID_SIZE) (k mod GRID_SIZE))) (Z3IntVal (board ! k))
        \<in> set (cell_constraints board row col)"
    by (intro bexI [of _ "k div GRID_SIZE"] bexI [of _ "k mod GRID_SIZE"]) simp_all
  then have "Z3Eq (Z3Int (cell_name (k div GRID_SIZE) (k mod GRID_SIZE))) (Z3IntVal (board ! k))
      \<in> set (cell_assertions board)"
    by (simp add: cell_assertions_def)
  then show ?thesis
    by (simp add: v constraint_system_def)
qed

lemma refuted_full:
  assumes "\<forall>k<BOARD_SIZE. board ! k \<noteq> 0"
  shows "refuted (blocked_system board board)"
proof -
  let ?block = "Z3Or (block_constraints cell_vars board)"
  have "?block \<in> set (blocked_system board board)"
    by (simp add: blocked_system_def)
  moreover have "list_all (\<lambda>d. case d of Z3Not e \<Rightarrow> e \<in> set (blocked_system board board) | _ \<Rightarrow> False)
      (block_constraints cell_vars board)"
    using assms clue_asserted [of _ board]
    by (simp add: block_constraints_eq list_all_iff length_cell_vars blocked_system_def)
  ultimately show ?thesis
    unfolding refuted_def list_ex_iff by force
qed

lemma valid_grid_nonzero:
  assumes "valid_grid g" "k < BOARD_SIZE"
  shows "1 \<le> g ! k \<and> g ! k \<le> 9"
proof -
  from assms(2) have b: "k div GRID_SIZE < GRID_SIZE" "k mod GRID_SIZE < GRID_SIZE"
    and eq: "k div GRID_SIZE * GRID_SIZE + k mod GRID_SIZE = k"
    by (simp_all add: GRID_SIZE_def BOARD_SIZE_def)
  from assms(1) have len: "length g = BOARD_SIZE" by (simp add: valid_grid_def)
  from assms(1) have "\<forall>row<GRID_SIZE. \<forall>col<GRID_SIZE.
         1 \<le> g ! (row * GRID_SIZE + col) \<and> g ! (row * GRID_SIZE + col) \<le> 9"
    unfolding valid_grid_iff [OF len] by blast
  with b have "1 \<le> g ! (k div GRID_SIZE * GRID_SIZE + k mod GRID_SIZE) \<and>
      g ! (k div GRID_SIZE * GRID_SIZE + k mod GRID_SIZE) \<le> 9"
    by blast
  then show ?thesis unfolding eq .
qed

lemma full_board_only:
  assumes "valid_grid board" "is_solution board g"
  shows "g = board"
proof (rule nth_equalityI)
  from assms show "length g = length board"
    by (simp add: is_solution_def valid_grid_def)
next
  fix k assume "k < length g"
  with assms(2) have k: "k < BOARD_SIZE" by (simp add: is_solution_length)
  with assms(1) have "board ! k \<noteq> 0" using valid_grid_nonzero [of board k] by auto
  with assms(2) k show "g ! k = board ! k"
    by (simp add: is_solution_def keeps_clues_def list_all_upt)
qed

lemma full_board_solution: "valid_grid board \<Longrightarrow> is_solution board board"
  by (simp add: is_solution_def keeps_clues_def list_all_iff)

subsection \<open>Runs on the example boards\<close>

lemma length_grid1: "length grid1 = BOARD_SIZE"
  by (simp add: grid1_def BOARD_SIZE_def GRID_SIZE_def)

lemma length_empty_board: "BOARD_SIZE \<le> length empty_board"
  by (simp add: empty_board_def BOARD_SIZE_def GRID_SIZE_def)

lemma empty_solution1: "is_solution empty_board grid1"
  by (simp add: is_solution_def valid_grid1 keeps_clues_empty)

lemma empty_solution2: "is_solution empty_board grid2"
  by (simp add: is_solution_def valid_grid2 keeps_clues_empty)

lemma empty_second_unknown:
  "decide (guess_backend [grid1]) (blocked_system empty_board grid1) = Unknown"
  using not_refuted [OF other_solution_satisfies [OF empty_solution2 grids_differ length_grid1]]
  by (simp add: guess_second_single [OF length_grid1])

lemma empty_solved_single:
  "solveSudoku (guess_backend [grid1]) empty_board =
     (Inr \<lparr>solution = grid1, solutionCount = 1\<rparr>, [CallCheck, CallModel, CallCheck])"
  unfolding solveSudoku_def guess_solve [OF empty_solution1 length_empty_board]
  by (simp add: empty_second_unknown)

lemma empty_solved_pair:
  "solveSudoku (guess_backend [grid1, grid2]) empty_board =
     (Inr \<lparr>solution = grid1, solutionCount = 2\<rparr>, [CallCheck, CallModel, CallCheck])"
  unfolding solveSudoku_def guess_solve [OF empty_solution1 length_empty_board]
  by (simp add: guess_second_pair [OF empty_solution2 grids_differ length_grid1])

lemma grid1_nonzero: "\<forall>k<BOARD_SIZE. grid1 ! k \<noteq> 0"
  using valid_grid_nonzero [OF valid_grid1] by fastforce

lemma full_second_unsat:
  "decide (guess_backend [grid1]) (blocked_system grid1 grid1) = Unsat"
  by (simp add: guess_second_single [OF length_grid1] refuted_full [OF grid1_nonzero])

lemma full_solved:
  "solveSudoku (guess_backend [grid1]) grid1 =
     (Inr \<lparr>solution = grid1, solutionCount = 1\<rparr>, [CallCheck, CallModel, CallCheck])"
  unfolding solveSudoku_def
    guess_solve [OF full_board_solution [OF valid_grid1] eq_refl [OF length_grid1 [symmetric]]]
  by (simp add: full_second_unsat)

subsection \<open>Cells that share a group\<close>

lemma distinct_map_nth:
  assumes "distinct (map f xs)" "p < length xs" "q < length xs" "p \<noteq> q"
  shows "f (xs ! p) \<noteq> f (xs ! q)"
proof -
  have "(map f xs ! p = map f xs ! q) = (p = q)"
    using assms by (intro nth_eq_iff_index_eq) simp_all
  with assms show ?thesis by simp
qed

lemma box_list_nth:
  assumes "row < BOX_SIZE" "col < BOX_SIZE"
  shows "box_list boxRow boxCol ! (row * BOX_SIZE + col)
     = (boxRow * BOX_SIZE + row) * GRID_SIZE + (boxCol * BOX_SIZE + col)"
  unfolding box_list_def using assms by (rule nth_concat_uniform)

lemma length_box_list: "length (box_list boxRow boxCol) = 9"
  by (simp add: box_list_def length_concat_uniform BOX_SIZE_def)

lemma valid_grid_distinct:
  assumes v: "valid_grid g" and i: "i < BOARD_SIZE" and j: "j < BOARD_SIZE"
    and ne: "i \<noteq> j" and sg: "same_group i j"
  shows "g ! i \<noteq> g ! j"
proof -
  from v have len: "length g = BOARD_SIZE" by (simp add: valid_grid_def)
  from v have rows: "\<forall>row<GRID_SIZE. distinct (map (\<lambda>col. g ! (row * GRID_SIZE + col)) [0..<GRID_SIZE])"
    and cols: "\<forall>col<GRID_SIZE. distinct (map (\<lambda>row. g ! (row * GRID_SIZE + col)) [0..<GRID_SIZE])"
    and boxes: "\<forall>boxRow<BOX_SIZE. \<forall>boxCol<BOX_SIZE. distinct (map (\<lambda>k. g ! k) (box_list boxRow boxCol))"
    unfolding valid_grid_iff [OF len] by blast+
  from i have bi: "i div GRID_SIZE < GRID_SIZE" "i mod GRID_SIZE < GRID_SIZE"
    and ei: "i div GRID_SIZE * GRID_SIZE + i mod GRID_SIZE = i"
    by (simp_all add: GRID_SIZE_def BOARD_SIZE_def)
  from j have bj: "j div GRID_SIZE < GRID_SIZE" "j mod GRID_SIZE < GRID_SIZE"
    and ej: "j div GRID_SIZE * GRID_SIZE + j mod GRID_SIZE = j"
    by (simp_all add: GRID_SIZE_def BOARD_SIZE_def)
  from sg consider
      (row) "i div GRID_SIZE = j div GRID_SIZE"
    | (col) "i mod GRID_SIZE = j mod GRID_SIZE"
    | (box) "(i div GRID_SIZE) div BOX_SIZE = (j div GRID_SIZE) div BOX_SIZE"
            "(i mod GRID_SIZE) div BOX_SIZE = (j mod GRID_SIZE) div BOX_SIZE"
    unfolding same_group_def by blast
  then show ?thesis
  proof cases
    case row
    have d: "distinct (map (\<lambda>col. g ! (i div GRID_SIZE * GRID_SIZE + col)) [0..<GRID_SIZE])"
      using rows bi by blast
    have "i mod GRID_SIZE \<noteq> j mod GRID_SIZE"
      using ne ei ej row by metis
    with distinct_map_nth [OF d, of "i mod GRID_SIZE" "j mod GRID_SIZE"] bi bj
    have "g ! (i div GRID_SIZE * GRID_SIZE + i mod GRID_SIZE)
        \<noteq> g ! (i div GRID_SIZE * GRID_SIZE + j mod GRID_SIZE)"
      by simp
    then show ?thesis unfolding row ej using ei row by simp
  next
    case col
    have d: "distinct (map (\<lambda>row. g ! (row * GRID_SIZE + i mod GRID_SIZE)) [0..<GRID_SIZE])"
      using cols bi by blast
    have "i div GRID_SIZE \<noteq> j div GRID_SIZE"
      using ne ei ej col by metis
    with distinct_map_nth [OF d, of "i div GRID_SIZE" "j div GRID_SIZE"] bi bj
    have "g ! (i div GRID_SIZE * GRID_SIZE + i mod GRID_SIZE)
        \<noteq> g ! (j div GRID_SIZE * GRID_SIZE + i mod GRID_SIZE)"
      by simp
    moreover have "j div GRID_SIZE * GRID_SIZE + i mod GRID_SIZE = j"
      using ej col by simp
    ultimately show ?thesis by (simp add: ei)
  next
    case box
    define br where "br = (i div GRID_SIZE) div BOX_SIZE"
    define bc where "bc = (i mod GRID_SIZE) div BOX_SIZE"
    define p where "p = (i div GRID_SIZE) mod BOX_SIZE * BOX_SIZE + (i mod GRID_SIZE) mod BOX_SIZE"
    define q where "q = (j div GRID_SIZE) mod BOX_SIZE * BOX_SIZE + (j mod GRID_SIZE) mod BOX_SIZE"
    have bb: "br < BOX_SIZE" "bc < BOX_SIZE"
      using i by (simp_all add: br_def bc_def GRID_SIZE_def BOX_SIZE_def BOARD_SIZE_def)
    have d: "distinct (map (\<lambda>k. g ! k) (box_list br bc))"
      using boxes bb by blast
    have pi: "box_list br bc ! p = i"
      unfolding p_def
      by (subst box_list_nth) (simp_all add: br_def bc_def GRID_SIZE_def BOX_SIZE_def)
    have qj: "box_list br bc ! q = j"
      unfolding q_def
      using box
      by (subst box_list_nth) (simp_all add: br_def bc_def GRID_SIZE_def BOX_SIZE_def)
    have lt: "p < 9" "q < 9"
      by (simp_all add: p_def q_def BOX_SIZE_def) 
    have "p \<noteq> q" using pi qj ne by auto
    from distinct_map_nth [OF d _ _ this] lt show ?thesis
      by (simp add: length_box_list pi qj)
  qed
qed

subsection \<open>The request handler\<close>

lemma read_board_ok:
  "(\<forall>v\<in>set vs. 0 \<le> v \<and> v \<le> 9) \<Longrightarrow>
   read_board (map (\<lambda>v. JNumber (of_int v)) vs) acc = Inr (acc @ vs)"
  by (induction vs arbitrary: acc) simp_all

lemma read_request_ok:
  assumes "length board = BOARD_SIZE" "\<forall>v\<in>set board. 0 \<le> v \<and> v \<le> 9"
  shows "read_request (Some (board_payload board)) = Inr (Inr board)"
  using assms by (simp add: read_request_def board_payload_def read_board_ok)

lemma solve_not_sat:
  assumes "BOARD_SIZE \<le> length board" "decide B (constraint_system board) \<noteq> Sat"
  shows "solveSudoku B board = (Inl (SudokuUnsolvableError ''Sudoku has no solution.''), [CallCheck])"
  unfolding solveSudoku_def solve_unfold [OF assms(1)] using assms(2) by simp

lemma handle_not_sat:
  assumes "length board = BOARD_SIZE" "\<forall>v\<in>set board. 0 \<le> v \<and> v \<le> 9"
    "decide B (constraint_system board) \<noteq> Sat"
  shows "handleSolveRequest B (Some (board_payload board)) =
     (Inr (jsonError ''The provided Sudoku board is unsatisfiable.'' 422), [CallCheck])"
proof -
  have "BOARD_SIZE \<le> length board" using assms(1) by simp
  from solve_not_sat [OF this assms(3)] show ?thesis
    by (simp add: handleSolveRequest_def read_request_ok [OF assms(1,2)])
qed

lemma empty_board_entries: "length empty_board = BOARD_SIZE \<and> (\<forall>v\<in>set empty_board. 0 \<le> v \<and> v \<le> 9)"
  by (simp add: empty_board_def BOARD_SIZE_def GRID_SIZE_def)

lemma length_duplicate_board: "length duplicate_board = BOARD_SIZE"
  by (simp add: duplicate_board_def BOARD_SIZE_def GRID_SIZE_def)

lemma integer_iff_floor: "(x::real) = of_int \<lfloor>x\<rfloor> \<longleftrightarrow> x \<in> \<int>"
proof
  assume "x = of_int \<lfloor>x\<rfloor>"
  then show "x \<in> \<int>" by (metis Ints_of_int)
next
  assume "x \<in> \<int>"
  then obtain n where "x = of_int n" by (rule Ints_cases)
  then show "x = of_int \<lfloor>x\<rfloor>" by simp
qed

lemma is_board_entry_iff:
  "is_board_entry v \<longleftrightarrow> (case v of JNumber x \<Rightarrow> x \<in> \<int> \<and> 0 \<le> x \<and> x \<le> 9 | _ \<Rightarrow> False)"
  by (cases v) (auto simp: integer_iff_floor [symmetric])

lemma read_board_bad:
  "\<not> list_all is_board_entry vs \<Longrightarrow>
   read_board vs acc = Inl (jsonError ''Board entries must be integers in the range 0-9.'' 400)"
  by (induction vs arbitrary: acc) auto

lemma read_request_bad:
  assumes "get_board payload = Inr b" "\<not> well_formed_board b"
  shows "\<exists>msg. read_request (Some payload) = Inr (Inl (jsonError msg 400))"
proof (cases b)
  case (JArray vs)
  show ?thesis
  proof (cases "length vs = BOARD_SIZE")
    case True
    with assms(2) JArray have "\<not> list_all is_board_entry vs"
      by (simp add: list_all_iff is_board_entry_iff)
    then have "read_request (Some payload)
        = Inr (Inl (jsonError ''Board entries must be integers in the range 0-9.'' 400))"
      using assms(1) JArray True by (simp add: read_request_def read_board_bad)
    then show ?thesis by blast
  next
    case False
    then have "read_request (Some payload)
        = Inr (Inl (jsonError (''Expected board length '' @ show_nat BOARD_SIZE @ ''.'') 400))"
      using assms(1) JArray by (simp add: read_request_def)
    then show ?thesis by blast
  qed
qed (use assms(1) in \<open>auto simp add: read_request_def\<close>)

subsection \<open>A model that prints no number\<close>

lemma parseInt_garbled: "parseInt ''?'' = None"
  by (simp add: parseInt_def is_space_def is_digit_def)

lemma garbled_fails:
  "fst (solver_solveSudoku garbled_backend empty_board)
     = Inl (Error ''Failed to parse solver value: ?'')"
proof -
  have "cell_vars \<noteq> []"
    using length_cell_vars by (auto simp: BOARD_SIZE_def GRID_SIZE_def)
  then obtain c cs where c: "cell_vars = c # cs" by (cases cell_vars) simp_all
  have "for_each cell_vars (extract_cell (\<lambda>e. ''?'')) []
      = Inl (Error ''Failed to parse solver value: ?'')"
    unfolding c by (simp add: extract_cell_cases [of _ c] parseInt_garbled)
  then show ?thesis
    unfolding solver_solveSudoku_def solve_unfold [OF length_empty_board]
    by (simp add: garbled_backend_def)
qed

subsection \<open>The second round\<close>

lemma solve_with_solution:
  assumes "BOARD_SIZE \<le> length board" "decide B (constraint_system board) = Sat"
    "model_solution B board = Inr sol"
  shows "solveSudoku B board =
     (Inr \<lparr>solution = sol,
           solutionCount = (if decide B (blocked_system board sol) = Sat then 2 else 1)\<rparr>,
      [CallCheck, CallModel, CallCheck])"
  unfolding solveSudoku_def solve_unfold [OF assms(1)]
  using assms(2,3) by (simp add: model_solution_def)

lemma guess_model_solution:
  assumes "is_solution board g"
  shows "decide (guess_backend (g # gs)) (constraint_system board) = Sat \<and>
     model_solution (guess_backend (g # gs)) board = Inr g"
proof -
  let ?B = "guess_backend (g # gs)"
  let ?cs = "constraint_system board"
  have sat: "satisfies (grid_assignment g) ?cs"
    using assms by (rule solution_satisfies)
  then have d: "decide ?B ?cs = Sat"
    by (simp add: guess_backend_def)
  have ev: "\<And>x. evaluate ?B ?cs (Z3Int x) = show_int (grid_assignment g x)"
    using sat by (simp add: guess_backend_def)
  have "model_solution ?B board = Inr (grid_of (grid_assignment g))"
    unfolding model_solution_def using sat ev by (rule extract_model)
  with d show ?thesis
    by (simp add: grid_of_grid_assignment [OF is_solution_length [OF assms]])
qed

lemma handle_solved:
  assumes "length board = BOARD_SIZE" "\<forall>v\<in>set board. 0 \<le> v \<and> v \<le> 9"
    "solveSudoku B board = (Inr res, cl)"
  shows "handleSolveRequest B (Some (board_payload board)) =
     (Inr (jsonResponse (SolutionBody (solution res) (solutionCount res)) 200), cl)"
  by (simp add: handleSolveRequest_def read_request_ok [OF assms(1,2)] assms(3))

section \<open>The properties of the specification\<close>

text \<open>
  C2. With a backend that meets its contract, a solution that \<open>solveSudoku\<close> returns
  is a valid grid: it has 81 cells, and each of the 27 groups (9 rows, 9 columns, 9 boxes
  by (row div 3, col div 3)) holds each value 1..9 exactly once.
\<close>

theorem solution_valid:
  assumes "backend_sound B" "solveSudoku B board = (Inr res, cl)"
  shows "valid_grid (solution res) \<and> length groups = 27"
proof -
  from solve_success [OF assms(1) assms(2) [unfolded solveSudoku_def]]
  obtain a where "satisfies a (constraint_system board)" "solution res = grid_of a"
    by blast
  then show ?thesis
    by (simp add: satisfies_system_iff is_solution_def length_groups)
qed

theorem solution_valid_witness:
  "backend_sound (guess_backend [grid1]) \<and>
   fst (solveSudoku (guess_backend [grid1]) puzzle1) =
     Inr \<lparr>solution = grid1,
          solutionCount =
            (if decide (guess_backend [grid1]) (blocked_system puzzle1 grid1) = Sat then 2 else 1)\<rparr> \<and>
   valid_grid grid1 \<and> length groups = 27"
  using solution_valid [OF guess_backend_sound puzzle1_solved] guess_backend_sound puzzle1_solved
  by simp

text \<open>
  C3. With a backend that meets its contract, a solution that \<open>solveSudoku\<close> returns
  keeps every clue: at each position where the board is not 0 the solution has the
  board's value.
\<close>

theorem clues_preserved:
  assumes "backend_sound B" "solveSudoku B board = (Inr res, cl)"
    "k < BOARD_SIZE" "board ! k \<noteq> 0"
  shows "solution res ! k = board ! k"
proof -
  from solve_success [OF assms(1) assms(2) [unfolded solveSudoku_def]]
  obtain a where "satisfies a (constraint_system board)" "solution res = grid_of a"
    by blast
  then have "keeps_clues board (solution res)"
    by (simp add: satisfies_system_iff is_solution_def)
  with assms(3,4) show ?thesis
    by (simp add: keeps_clues_def list_all_upt)
qed

theorem clues_preserved_witness:
  "backend_sound (guess_backend [grid1]) \<and>
   fst (solveSudoku (guess_backend [grid1]) puzzle1) =
     Inr \<lparr>solution = grid1,
          solutionCount =
            (if decide (guess_backend [grid1]) (blocked_system puzzle1 grid1) = Sat then 2 else 1)\<rparr> \<and>
   (4::nat) < BOARD_SIZE \<and> puzzle1 ! 4 = 7 \<and> grid1 ! 4 = 7"
proof -
  have k: "(4::nat) < BOARD_SIZE" by (simp add: BOARD_SIZE_def GRID_SIZE_def)
  have c: "puzzle1 ! 4 \<noteq> 0" by (simp add: puzzle1_def)
  from clues_preserved [OF guess_backend_sound puzzle1_solved k c]
  have "grid1 ! 4 = puzzle1 ! 4" by simp
  moreover have "puzzle1 ! 4 = 7" by (simp add: puzzle1_def)
  ultimately show ?thesis
    using guess_backend_sound puzzle1_solved k by simp
qed

text \<open>
  C7. With a backend that meets its contract, a solution that \<open>solveSudoku\<close> returns
  has exactly 81 entries, each in 1..9, and the entry at index row * 9 + col is the
  value read (by \<open>parseInt\<close>) from the model of the first round for the cell variable
  of that row and column.
\<close>

theorem solution_shape:
  assumes "backend_sound B" "solveSudoku B board = (Inr res, cl)"
  shows "length (solution res) = 81 \<and>
     (\<forall>v\<in>set (solution res). 1 \<le> v \<and> v \<le> 9) \<and>
     (\<forall>row<9. \<forall>col<9.
        parseInt (evaluate B (constraint_system board) (Z3Int (cell_name row col)))
          = Some (solution res ! (row * 9 + col)))"
proof -
  from solve_success [OF assms(1) assms(2) [unfolded solveSudoku_def]]
  obtain a where a: "satisfies a (constraint_system board)"
    and sol: "solution res = grid_of a"
    and ev: "\<And>x. evaluate B (constraint_system board) (Z3Int x) = show_int (a x)"
    by blast
  from a have range: "\<forall>row<GRID_SIZE. \<forall>col<GRID_SIZE.
        1 \<le> a (cell_name row col) \<and> a (cell_name row col) \<le> 9"
    by (simp add: constraint_system_def satisfies_append satisfies_cells)
  have len: "length (solution res) = 81"
    by (simp add: sol length_grid_of BOARD_SIZE_def GRID_SIZE_def)
  have vals: "1 \<le> v \<and> v \<le> 9" if "v \<in> set (solution res)" for v
  proof -
    from that obtain k where k: "k < BOARD_SIZE" "v = grid_of a ! k"
      unfolding sol by (metis in_set_conv_nth length_grid_of)
    then have b: "k div GRID_SIZE < GRID_SIZE" "k mod GRID_SIZE < GRID_SIZE"
      and eq: "k div GRID_SIZE * GRID_SIZE + k mod GRID_SIZE = k"
      by (simp_all add: GRID_SIZE_def BOARD_SIZE_def)
    have "v = a (cell_name (k div GRID_SIZE) (k mod GRID_SIZE))"
      using grid_of_nth [OF b, of a] k(2) unfolding eq by simp
    with range b show ?thesis by blast
  qed
  have read: "parseInt (evaluate B (constraint_system board) (Z3Int (cell_name row col)))
          = Some (solution res ! (row * 9 + col))" if "row < 9" "col < 9" for row col
  proof -
    have b: "row < GRID_SIZE" "col < GRID_SIZE" using that by (simp_all add: GRID_SIZE_def)
    have "solution res ! (row * GRID_SIZE + col) = a (cell_name row col)"
      unfolding sol by (rule grid_of_nth [OF b])
    moreover have "1 \<le> a (cell_name row col) \<and> a (cell_name row col) \<le> 9"
      using range b by blast
    ultimately show ?thesis
      by (simp add: ev parseInt_digit GRID_SIZE_def)
  qed
  from len vals read show ?thesis by blast
qed

theorem solution_shape_witness:
  "backend_sound (guess_backend [grid1]) \<and>
   fst (solveSudoku (guess_backend [grid1]) puzzle1) =
     Inr \<lparr>solution = grid1,
          solutionCount =
            (if decide (guess_backend [grid1]) (blocked_system puzzle1 grid1) = Sat then 2 else 1)\<rparr> \<and>
   length grid1 = 81 \<and>
   parseInt (evaluate (guess_backend [grid1]) (constraint_system puzzle1) (Z3Int (cell_name 0 4)))
     = Some 7"
proof -
  from solution_shape [OF guess_backend_sound puzzle1_solved]
  have "length grid1 = 81"
    and "parseInt (evaluate (guess_backend [grid1]) (constraint_system puzzle1) (Z3Int (cell_name 0 4)))
          = Some (grid1 ! (0 * 9 + 4))"
    by simp_all
  moreover have "grid1 ! (0 * 9 + 4) = 7" by (simp add: grid1_def)
  ultimately show ?thesis
    using guess_backend_sound puzzle1_solved by simp
qed

text \<open>
  C5. With a backend that meets its contract, a board of 81 entries that has the same
  non-zero clue at two different positions of one row, column or box makes
  \<open>solveSudoku\<close> throw \<open>SudokuUnsolvableError\<close> after the first check, without asking
  for a model.
\<close>

theorem duplicate_clues_unsolvable:
  assumes "backend_sound B" "length board = BOARD_SIZE"
    "i < BOARD_SIZE" "j < BOARD_SIZE" "i \<noteq> j" "same_group i j"
    "board ! i \<noteq> 0" "board ! j = board ! i"
  shows "solveSudoku B board =
     (Inl (SudokuUnsolvableError ''Sudoku has no solution.''), [CallCheck])"
proof -
  have "decide B (constraint_system board) \<noteq> Sat"
  proof
    assume "decide B (constraint_system board) = Sat"
    with assms(1) obtain a where "satisfies a (constraint_system board)"
      unfolding backend_sound_def by blast
    then have v: "valid_grid (grid_of a)" and k: "keeps_clues board (grid_of a)"
      by (simp_all add: satisfies_system_iff is_solution_def)
    from k assms(3,4,7,8) have "grid_of a ! i = board ! i" "grid_of a ! j = board ! i"
      by (simp_all add: keeps_clues_def list_all_upt)
    with valid_grid_distinct [OF v assms(3,4,5,6)] show False by simp
  qed
  moreover have "BOARD_SIZE \<le> length board" using assms(2) by simp
  ultimately show ?thesis by (intro solve_not_sat)
qed

theorem duplicate_clues_unsolvable_witness:
  "backend_sound (guess_backend [grid1]) \<and> length duplicate_board = BOARD_SIZE \<and>
   (0::nat) < BOARD_SIZE \<and> (1::nat) < BOARD_SIZE \<and> same_group 0 1 \<and>
   duplicate_board ! 0 = 5 \<and> duplicate_board ! 1 = 5 \<and>
   solveSudoku (guess_backend [grid1]) duplicate_board =
     (Inl (SudokuUnsolvableError ''Sudoku has no solution.''), [CallCheck])"
proof -
  have b: "(0::nat) < BOARD_SIZE" "(1::nat) < BOARD_SIZE"
    by (simp_all add: BOARD_SIZE_def GRID_SIZE_def)
  have sg: "same_group 0 1" by (simp add: same_group_def GRID_SIZE_def)
  have c: "duplicate_board ! 0 = 5" "duplicate_board ! 1 = 5"
    unfolding duplicate_board_def by simp_all
  have "solveSudoku (guess_backend [grid1]) duplicate_board =
     (Inl (SudokuUnsolvableError ''Sudoku has no solution.''), [CallCheck])"
    by (rule duplicate_clues_unsolvable [OF guess_backend_sound length_duplicate_board b _ sg])
       (simp_all add: duplicate_board_def)
  with guess_backend_sound length_duplicate_board b sg c show ?thesis by simp
qed

text \<open>
  C6. A request whose \<^verbatim>\<open>board\<close> is not an array of exactly 81 integers in 0..9 (a
  wrong length, an entry that is not a number, not an integer or out of range, or no array
  at all) is answered with status 400 and an error body, and no call is made on the
  solver; the process-isolated handler answers the same before it spawns a process.
\<close>

theorem malformed_rejected:
  assumes "get_board payload = Inr b" "\<not> well_formed_board b"
  shows "\<exists>msg. handleSolveRequest B (Some payload) = (Inr (jsonError msg 400), []) \<and>
     status (jsonError msg 400) = 400 \<and>
     handleSolveRequest_isolated spawn abortedBefore abortedAfter (Some payload)
       = Inr (jsonError msg 400)"
proof -
  from read_request_bad [OF assms] obtain msg
    where "read_request (Some payload) = Inr (Inl (jsonError msg 400))" by blast
  then show ?thesis
    by (simp add: handleSolveRequest_def handleSolveRequest_isolated_def jsonError_def
        jsonResponse_def)
qed

theorem malformed_rejected_witness:
  "(\<exists>msg. handleSolveRequest silent_backend (Some (board_payload (replicate 80 0)))
      = (Inr (jsonError msg 400), [])) \<and>
   (\<exists>msg. handleSolveRequest silent_backend (Some (board_payload (10 # replicate 80 0)))
      = (Inr (jsonError msg 400), []))"
proof -
  have g: "get_board (board_payload xs) = Inr (JArray (map (\<lambda>v. JNumber (of_int v)) xs))" for xs
    by (simp add: board_payload_def)
  have "\<not> well_formed_board (JArray (map (\<lambda>v. JNumber (of_int v)) (replicate 80 0)))"
    by (simp add: BOARD_SIZE_def GRID_SIZE_def)
  from malformed_rejected [OF g this]
  have a: "\<exists>msg. handleSolveRequest silent_backend (Some (board_payload (replicate 80 0)))
      = (Inr (jsonError msg 400), [])"
    by blast
  have "\<not> well_formed_board (JArray (map (\<lambda>v. JNumber (of_int v)) (10 # replicate 80 0)))"
    by simp
  from malformed_rejected [OF g this]
  have "\<exists>msg. handleSolveRequest silent_backend (Some (board_payload (10 # replicate 80 0)))
      = (Inr (jsonError msg 400), [])"
    by blast
  with a show ?thesis by blast
qed

text \<open>
  C10. In the process-isolated variant every failure that the solver process reports
  is rethrown as \<open>SudokuUnsolvableError\<close> and answered with 422 (for a request that
  was not aborted): \<open>solveSudokuInProcess\<close> does so for any reported message, and
  \<open>solver.ts\<close> reports every exception of its \<open>solveSudoku\<close>, a failure to parse a
  model value as much as an unsatisfiable board.
\<close>

theorem subprocess_failure_unsatisfiable:
  "(spawn board = \<lparr>code = 0, stdout = Inr (Failure err)\<rparr> \<longrightarrow>
      solveSudokuInProcess spawn False False board = Inl (SudokuUnsolvableError err)) \<and>
   (spawn board = \<lparr>code = 0, stdout = Inr (Failure err)\<rparr> \<and>
      read_request req = Inr (Inr board) \<longrightarrow>
      handleSolveRequest_isolated spawn False False req
        = Inr (jsonError ''The provided Sudoku board is unsatisfiable.'' 422)) \<and>
   (fst (solver_solveSudoku B board) = Inl e \<longrightarrow>
      solver_process B board = \<lparr>code = 0, stdout = Inr (Failure (error_message e))\<rparr>)"
  by (simp add: solveSudokuInProcess_def handleSolveRequest_isolated_def solver_process_def
      solver_main_def Let_def)

theorem subprocess_failure_unsatisfiable_witness:
  "fst (solver_solveSudoku garbled_backend empty_board)
     = Inl (Error ''Failed to parse solver value: ?'') \<and>
   solver_process garbled_backend empty_board
     = \<lparr>code = 0, stdout = Inr (Failure ''Failed to parse solver value: ?'')\<rparr> \<and>
   read_request (Some (board_payload empty_board)) = Inr (Inr empty_board) \<and>
   solveSudokuInProcess (solver_process garbled_backend) False False empty_board
     = Inl (SudokuUnsolvableError ''Failed to parse solver value: ?'') \<and>
   handleSolveRequest_isolated (solver_process garbled_backend) False False
       (Some (board_payload empty_board))
     = Inr (jsonError ''The provided Sudoku board is unsatisfiable.'' 422)"
proof -
  have r: "read_request (Some (board_payload empty_board)) = Inr (Inr empty_board)"
    using empty_board_entries by (intro read_request_ok) simp_all
  from subprocess_failure_unsatisfiable
    [of "solver_process garbled_backend" empty_board "''Failed to parse solver value: ?''"
        "Some (board_payload empty_board)" garbled_backend "Error ''Failed to parse solver value: ?''"]
    garbled_fails r
  show ?thesis by simp
qed

text \<open>
  C1 (as amended). With a backend that meets its contract, for a result of
  \<open>solveSudoku\<close>: the returned grid solves the board; \<open>solutionCount\<close> is 2 when the
  second round answered \<open>Sat\<close> and 1 otherwise; if it is 2, a solution of the board
  other than the returned one exists; if it is 1 and the second round did not answer
  \<open>Unknown\<close>, the returned grid is the only solution of the board; and the blocking
  constraint holds under an assignment exactly when its grid differs from the returned
  one.
\<close>

theorem uniqueness_flag:
  assumes "backend_sound B" "solveSudoku B board = (Inr res, cl)"
  shows "is_solution board (solution res) \<and>
     solutionCount res = (if decide B (blocked_system board (solution res)) = Sat then 2 else 1) \<and>
     (solutionCount res = 2 \<longrightarrow> (\<exists>g. is_solution board g \<and> g \<noteq> solution res)) \<and>
     (solutionCount res = 1 \<and> decide B (blocked_system board (solution res)) \<noteq> Unknown \<longrightarrow>
        (\<forall>g. is_solution board g \<longrightarrow> g = solution res)) \<and>
     (\<forall>a. holds a (Z3Or (block_constraints cell_vars (solution res))) \<longleftrightarrow> grid_of a \<noteq> solution res)"
proof -
  from solve_success [OF assms(1) assms(2) [unfolded solveSudoku_def]]
  obtain a where a: "satisfies a (constraint_system board)"
    and sol: "solution res = grid_of a"
    and cnt: "solutionCount res = (if decide B (blocked_system board (grid_of a)) = Sat then 2 else 1)"
    by blast
  have len: "length (solution res) = BOARD_SIZE"
    by (simp add: sol length_grid_of)
  have solves: "is_solution board (solution res)"
    using a by (simp add: sol satisfies_system_iff)
  have count: "solutionCount res
      = (if decide B (blocked_system board (solution res)) = Sat then 2 else 1)"
    using cnt unfolding sol .
  have two: "\<exists>g. is_solution board g \<and> g \<noteq> solution res" if "solutionCount res = 2"
  proof -
    have "decide B (blocked_system board (solution res)) = Sat"
    proof (rule ccontr)
      assume "decide B (blocked_system board (solution res)) \<noteq> Sat"
      then have "solutionCount res = 1" by (simp add: count)
      with that show False by simp
    qed
    with assms(1) obtain a' where "satisfies a' (blocked_system board (solution res))"
      unfolding backend_sound_def by blast
    then show ?thesis
      unfolding satisfies_blocked [OF len] by blast
  qed
  have one: "\<forall>g. is_solution board g \<longrightarrow> g = solution res"
    if c: "solutionCount res = 1" and k: "decide B (blocked_system board (solution res)) \<noteq> Unknown"
  proof -
    have "decide B (blocked_system board (solution res)) \<noteq> Sat"
    proof
      assume "decide B (blocked_system board (solution res)) = Sat"
      then have "solutionCount res = 2" by (simp add: count)
      with c show False by simp
    qed
    with k have u: "decide B (blocked_system board (solution res)) = Unsat"
      by (cases "decide B (blocked_system board (solution res))") simp_all
    show ?thesis
    proof (intro allI impI, rule ccontr)
      fix g assume g: "is_solution board g" and ne: "g \<noteq> solution res"
      from other_solution_satisfies [OF g ne len]
      have "satisfies (grid_assignment g) (blocked_system board (solution res))" .
      moreover from assms(1) u have "\<not> satisfies (grid_assignment g) (blocked_system board (solution res))"
        unfolding backend_sound_def by blast
      ultimately show False by blast
    qed
  qed
  from solves count two one holds_block [OF len] show ?thesis by blast
qed

theorem uniqueness_flag_witness:
  "backend_sound (guess_backend [grid1, grid2]) \<and>
   solveSudoku (guess_backend [grid1, grid2]) empty_board =
     (Inr \<lparr>solution = grid1, solutionCount = 2\<rparr>, [CallCheck, CallModel, CallCheck]) \<and>
   decide (guess_backend [grid1, grid2]) (blocked_system empty_board grid1) = Sat \<and>
   (\<exists>g. is_solution empty_board g \<and> g \<noteq> grid1) \<and>
   backend_sound (guess_backend [grid1]) \<and>
   solveSudoku (guess_backend [grid1]) grid1 =
     (Inr \<lparr>solution = grid1, solutionCount = 1\<rparr>, [CallCheck, CallModel, CallCheck]) \<and>
   decide (guess_backend [grid1]) (blocked_system grid1 grid1) = Unsat \<and>
   \<not> (\<exists>g. is_solution grid1 g \<and> g \<noteq> grid1)"
proof -
  from uniqueness_flag [OF guess_backend_sound empty_solved_pair]
  have "\<exists>g. is_solution empty_board g \<and> g \<noteq> grid1" by simp
  moreover from uniqueness_flag [OF guess_backend_sound full_solved] full_second_unsat
  have "\<not> (\<exists>g. is_solution grid1 g \<and> g \<noteq> grid1)" by auto
  moreover have "decide (guess_backend [grid1, grid2]) (blocked_system empty_board grid1) = Sat"
    by (rule guess_second_pair [OF empty_solution2 grids_differ length_grid1])
  ultimately show ?thesis
    using guess_backend_sound empty_solved_pair full_solved full_second_unsat by blast
qed

text \<open>
  Without that amendment the property fails: with a backend that meets its contract but
  gives up on the second round, the empty board comes back with \<open>solutionCount = 1\<close>
  although a second solution exists.
\<close>

theorem uniqueness_flag_counterexample:
  "backend_sound (guess_backend [grid1]) \<and>
   solveSudoku (guess_backend [grid1]) empty_board =
     (Inr \<lparr>solution = grid1, solutionCount = 1\<rparr>, [CallCheck, CallModel, CallCheck]) \<and>
   is_solution empty_board grid2 \<and> grid2 \<noteq> grid1"
  using guess_backend_sound empty_solved_single empty_solution2 grids_differ by blast

text \<open>
  C8 (as amended). For a fully filled valid board and a backend that meets its contract,
  the first round never answers \<open>Unsat\<close> and the second never \<open>Sat\<close>. When the first
  round answers \<open>Sat\<close>, \<open>solveSudoku\<close> succeeds and returns the board itself with
  \<open>solutionCount = 1\<close>, and the second round is \<open>Unsat\<close> unless the backend gives
  up on it. When the first round answers \<open>Unknown\<close>, \<open>solveSudoku\<close> throws
  \<open>SudokuUnsolvableError\<close>.
\<close>

theorem full_board_unique:
  assumes "backend_sound B" "valid_grid board"
  shows "decide B (constraint_system board) \<noteq> Unsat \<and>
     decide B (blocked_system board board) \<noteq> Sat \<and>
     (decide B (constraint_system board) = Sat \<longrightarrow>
        solveSudoku B board =
          (Inr \<lparr>solution = board, solutionCount = 1\<rparr>, [CallCheck, CallModel, CallCheck])) \<and>
     (decide B (constraint_system board) = Sat \<and> decide B (blocked_system board board) \<noteq> Unknown \<longrightarrow>
        decide B (blocked_system board board) = Unsat) \<and>
     (decide B (constraint_system board) = Unknown \<longrightarrow>
        solveSudoku B board =
          (Inl (SudokuUnsolvableError ''Sudoku has no solution.''), [CallCheck]))"
proof -
  have len: "length board = BOARD_SIZE"
    using assms(2) by (simp add: valid_grid_def)
  then have le: "BOARD_SIZE \<le> length board" by simp
  have self: "is_solution board board"
    using assms(2) by (rule full_board_solution)
  have first: "decide B (constraint_system board) \<noteq> Unsat"
    using assms(1) solution_satisfies [OF self] unfolding backend_sound_def by blast
  have second: "decide B (blocked_system board board) \<noteq> Sat"
  proof
    assume "decide B (blocked_system board board) = Sat"
    with assms(1) obtain a' where "satisfies a' (blocked_system board board)"
      unfolding backend_sound_def by blast
    then have "is_solution board (grid_of a')" "grid_of a' \<noteq> board"
      unfolding satisfies_blocked [OF len] by simp_all
    with full_board_only [OF assms(2)] show False by blast
  qed
  have solved: "solveSudoku B board =
      (Inr \<lparr>solution = board, solutionCount = 1\<rparr>, [CallCheck, CallModel, CallCheck])"
    if sat: "decide B (constraint_system board) = Sat"
  proof -
    from sound_model [OF assms(1) sat] obtain a where a: "satisfies a (constraint_system board)"
      and ex: "for_each cell_vars (extract_cell (evaluate B (constraint_system board))) [] = Inr (grid_of a)"
      by blast
    from a have "is_solution board (grid_of a)" by (simp add: satisfies_system_iff)
    then have ga: "grid_of a = board" by (rule full_board_only [OF assms(2)])
    show ?thesis
      unfolding solveSudoku_def solve_unfold [OF le]
      using second by (simp add: sat ex ga)
  qed
  have unsat: "decide B (blocked_system board board) = Unsat"
    if "decide B (blocked_system board board) \<noteq> Unknown"
    using that second by (cases "decide B (blocked_system board board)") simp_all
  have gave_up: "solveSudoku B board =
      (Inl (SudokuUnsolvableError ''Sudoku has no solution.''), [CallCheck])"
    if "decide B (constraint_system board) = Unknown"
    using that by (intro solve_not_sat [OF le]) simp
  from first second solved unsat gave_up show ?thesis by blast
qed

theorem full_board_unique_witness:
  "backend_sound (guess_backend [grid1]) \<and> valid_grid grid1 \<and>
   decide (guess_backend [grid1]) (constraint_system grid1) = Sat \<and>
   decide (guess_backend [grid1]) (blocked_system grid1 grid1) = Unsat \<and>
   solveSudoku (guess_backend [grid1]) grid1 =
     (Inr \<lparr>solution = grid1, solutionCount = 1\<rparr>, [CallCheck, CallModel, CallCheck])"
proof -
  have d1: "decide (guess_backend [grid1]) (constraint_system grid1) = Sat"
    using solution_satisfies [OF full_board_solution [OF valid_grid1]]
    by (simp add: guess_backend_def)
  from full_board_unique [OF guess_backend_sound valid_grid1] d1
  have "solveSudoku (guess_backend [grid1]) grid1 =
     (Inr \<lparr>solution = grid1, solutionCount = 1\<rparr>, [CallCheck, CallModel, CallCheck])"
    by blast
  with d1 full_second_unsat guess_backend_sound valid_grid1 show ?thesis by simp
qed

text \<open>
  Without that amendment the property fails: a backend that meets its contract but gives
  up on the first round has a fully filled valid board reported as unsolvable.
\<close>

theorem full_board_unique_counterexample:
  "backend_sound silent_backend \<and> valid_grid grid1 \<and>
   decide silent_backend (constraint_system grid1) = Unknown \<and>
   solveSudoku silent_backend grid1 =
     (Inl (SudokuUnsolvableError ''Sudoku has no solution.''), [CallCheck])"
proof -
  have "decide silent_backend (constraint_system grid1) \<noteq> Sat"
    by (simp add: silent_backend_def)
  moreover have "BOARD_SIZE \<le> length grid1"
    using length_grid1 by simp
  ultimately have "solveSudoku silent_backend grid1 =
     (Inl (SudokuUnsolvableError ''Sudoku has no solution.''), [CallCheck])"
    by (intro solve_not_sat)
  moreover have "decide silent_backend (constraint_system grid1) = Unknown"
    by (simp add: silent_backend_def)
  ultimately show ?thesis
    using silent_backend_sound valid_grid1 by simp
qed

text \<open>
  C4 (as amended). An answer \<open>Unknown\<close> of the first round is handled exactly as
  \<open>Unsat\<close>: \<open>solveSudoku\<close> throws \<open>SudokuUnsolvableError\<close> and the handler answers
  422. An answer \<open>Unknown\<close> of the second round does not fail the request: when the
  first round answered \<open>Sat\<close> and its model gave the solution, \<open>solveSudoku\<close>
  returns that solution with \<open>solutionCount = 1\<close> and the handler answers 200.
\<close>

theorem unknown_rounds:
  "(BOARD_SIZE \<le> length board \<and>
      (decide B (constraint_system board) = Unknown \<or> decide B (constraint_system board) = Unsat) \<longrightarrow>
      solveSudoku B board =
        (Inl (SudokuUnsolvableError ''Sudoku has no solution.''), [CallCheck])) \<and>
   (length board = BOARD_SIZE \<and> (\<forall>v\<in>set board. 0 \<le> v \<and> v \<le> 9) \<and>
      (decide B (constraint_system board) = Unknown \<or> decide B (constraint_system board) = Unsat) \<longrightarrow>
      handleSolveRequest B (Some (board_payload board)) =
        (Inr (jsonError ''The provided Sudoku board is unsatisfiable.'' 422), [CallCheck])) \<and>
   (BOARD_SIZE \<le> length board \<and> decide B (constraint_system board) = Sat \<and>
      model_solution B board = Inr sol \<and> decide B (blocked_system board sol) = Unknown \<longrightarrow>
      solveSudoku B board =
        (Inr \<lparr>solution = sol, solutionCount = 1\<rparr>, [CallCheck, CallModel, CallCheck])) \<and>
   (length board = BOARD_SIZE \<and> (\<forall>v\<in>set board. 0 \<le> v \<and> v \<le> 9) \<and>
      decide B (constraint_system board) = Sat \<and>
      model_solution B board = Inr sol \<and> decide B (blocked_system board sol) = Unknown \<longrightarrow>
      handleSolveRequest B (Some (board_payload board)) =
        (Inr (jsonResponse (SolutionBody sol 1) 200), [CallCheck, CallModel, CallCheck]))"
proof (intro conjI impI)
  assume "BOARD_SIZE \<le> length board \<and>
      (decide B (constraint_system board) = Unknown \<or> decide B (constraint_system board) = Unsat)"
  then show "solveSudoku B board =
        (Inl (SudokuUnsolvableError ''Sudoku has no solution.''), [CallCheck])"
    by (intro solve_not_sat) auto
next
  assume "length board = BOARD_SIZE \<and> (\<forall>v\<in>set board. 0 \<le> v \<and> v \<le> 9) \<and>
      (decide B (constraint_system board) = Unknown \<or> decide B (constraint_system board) = Unsat)"
  then show "handleSolveRequest B (Some (board_payload board)) =
        (Inr (jsonError ''The provided Sudoku board is unsatisfiable.'' 422), [CallCheck])"
    by (intro handle_not_sat) auto
next
  assume a: "BOARD_SIZE \<le> length board \<and> decide B (constraint_system board) = Sat \<and>
      model_solution B board = Inr sol \<and> decide B (blocked_system board sol) = Unknown"
  then have "solveSudoku B board =
     (Inr \<lparr>solution = sol,
           solutionCount = (if decide B (blocked_system board sol) = Sat then 2 else 1)\<rparr>,
      [CallCheck, CallModel, CallCheck])"
    by (intro solve_with_solution) simp_all
  with a show "solveSudoku B board =
        (Inr \<lparr>solution = sol, solutionCount = 1\<rparr>, [CallCheck, CallModel, CallCheck])"
    by simp
next
  assume a: "length board = BOARD_SIZE \<and> (\<forall>v\<in>set board. 0 \<le> v \<and> v \<le> 9) \<and>
      decide B (constraint_system board) = Sat \<and>
      model_solution B board = Inr sol \<and> decide B (blocked_system board sol) = Unknown"
  then have "solveSudoku B board =
     (Inr \<lparr>solution = sol,
           solutionCount = (if decide B (blocked_system board sol) = Sat then 2 else 1)\<rparr>,
      [CallCheck, CallModel, CallCheck])"
    by (intro solve_with_solution) simp_all
  with a have s: "solveSudoku B board =
        (Inr \<lparr>solution = sol, solutionCount = 1\<rparr>, [CallCheck, CallModel, CallCheck])"
    by simp
  from a have l: "length board = BOARD_SIZE" and r: "\<forall>v\<in>set board. 0 \<le> v \<and> v \<le> 9"
    by simp_all
  from handle_solved [OF l r s]
  show "handleSolveRequest B (Some (board_payload board)) =
        (Inr (jsonResponse (SolutionBody sol 1) 200), [CallCheck, CallModel, CallCheck])"
    by simp
qed

theorem unknown_rounds_witness:
  "decide silent_backend (constraint_system empty_board) = Unknown \<and>
   solveSudoku silent_backend empty_board =
     (Inl (SudokuUnsolvableError ''Sudoku has no solution.''), [CallCheck]) \<and>
   handleSolveRequest silent_backend (Some (board_payload empty_board)) =
     (Inr (jsonError ''The provided Sudoku board is unsatisfiable.'' 422), [CallCheck]) \<and>
   decide (guess_backend [grid1]) (constraint_system empty_board) = Sat \<and>
   model_solution (guess_backend [grid1]) empty_board = Inr grid1 \<and>
   decide (guess_backend [grid1]) (blocked_system empty_board grid1) = Unknown \<and>
   solveSudoku (guess_backend [grid1]) empty_board =
     (Inr \<lparr>solution = grid1, solutionCount = 1\<rparr>, [CallCheck, CallModel, CallCheck]) \<and>
   handleSolveRequest (guess_backend [grid1]) (Some (board_payload empty_board)) =
     (Inr (jsonResponse (SolutionBody grid1 1) 200), [CallCheck, CallModel, CallCheck])"
proof -
  have u: "decide silent_backend (constraint_system empty_board) = Unknown"
    by (simp add: silent_backend_def)
  from unknown_rounds [of empty_board silent_backend] u length_empty_board empty_board_entries
  have first: "solveSudoku silent_backend empty_board =
     (Inl (SudokuUnsolvableError ''Sudoku has no solution.''), [CallCheck])"
    "handleSolveRequest silent_backend (Some (board_payload empty_board)) =
     (Inr (jsonError ''The provided Sudoku board is unsatisfiable.'' 422), [CallCheck])"
    by simp_all
  note g = guess_model_solution [OF empty_solution1, of "[]"]
  from unknown_rounds [of empty_board "guess_backend [grid1]" grid1]
    g empty_second_unknown length_empty_board empty_board_entries
  have second: "solveSudoku (guess_backend [grid1]) empty_board =
     (Inr \<lparr>solution = grid1, solutionCount = 1\<rparr>, [CallCheck, CallModel, CallCheck])"
    "handleSolveRequest (guess_backend [grid1]) (Some (board_payload empty_board)) =
     (Inr (jsonResponse (SolutionBody grid1 1) 200), [CallCheck, CallModel, CallCheck])"
    by simp_all
  from u first g empty_second_unknown second show ?thesis by simp
qed

text \<open>
  Without that amendment the property fails on both rounds: a backend that gives up on
  the first round gets the empty board reported as unsatisfiable (422), and one that
  gives up on the second round gets it reported as unique.
\<close>

theorem unknown_rounds_counterexample:
  "backend_sound silent_backend \<and>
   decide silent_backend (constraint_system empty_board) = Unknown \<and>
   handleSolveRequest silent_backend (Some (board_payload empty_board)) =
     (Inr (jsonError ''The provided Sudoku board is unsatisfiable.'' 422), [CallCheck]) \<and>
   backend_sound (guess_backend [grid1]) \<and>
   decide (guess_backend [grid1]) (blocked_system empty_board grid1) = Unknown \<and>
   fst (solveSudoku (guess_backend [grid1]) empty_board) =
     Inr \<lparr>solution = grid1, solutionCount = 1\<rparr>"
proof -
  have u: "decide silent_backend (constraint_system empty_board) \<noteq> Sat"
    by (simp add: silent_backend_def)
  have "handleSolveRequest silent_backend (Some (board_payload empty_board)) =
     (Inr (jsonError ''The provided Sudoku board is unsatisfiable.'' 422), [CallCheck])"
    using empty_board_entries u by (intro handle_not_sat) simp_all
  moreover have "decide silent_backend (constraint_system empty_board) = Unknown"
    by (simp add: silent_backend_def)
  ultimately show ?thesis
    using silent_backend_sound guess_backend_sound empty_second_unknown empty_solved_single
    by simp
qed

end
